theory Spec2Isabelle
  imports Complex_Main "HOL-Library.Sublist"
begin

section \<open>JavaScript values used by the recorder\<close>

text \<open>
  Strings are lists of code units. The multiplication sign of the repeat suffix is the single
  code unit 0xD7. A property that may be \<open>undefined\<close> is an \<open>option\<close>; \<open>None\<close> is
  \<open>undefined\<close>.
\<close>

text \<open>\<open>s.startsWith(p)\<close> and \<open>s.includes(p)\<close>.\<close>

definition startsWith :: "string \<Rightarrow> string \<Rightarrow> bool" where
  "startsWith s p = (take (length p) s = p)"

fun includes_str :: "string \<Rightarrow> string \<Rightarrow> bool" where
  "includes_str [] p = (p = [])"
| "includes_str (c # cs) p = (startsWith (c # cs) p \<or> includes_str cs p)"

text \<open>\<open>String(n)\<close> for an integer \<open>n\<close>.\<close>

definition digit_char :: "nat \<Rightarrow> char" where
  "digit_char d = ''0123456789'' ! d"

function string_of_nat :: "nat \<Rightarrow> string" where
  "string_of_nat n =
     (if n < 10 then [digit_char n] else string_of_nat (n div 10) @ [digit_char (n mod 10)])"
  by pat_completeness auto
termination
  by (relation "measure id") auto

definition string_of_int :: "int \<Rightarrow> string" where
  "string_of_int i = (if i < 0 then ''-'' @ string_of_nat (nat (- i)) else string_of_nat (nat i))"

text \<open>A string property inside a template literal: \<open>undefined\<close> prints as the word.\<close>

definition template_str :: "string option \<Rightarrow> string" where
  "template_str v = (case v of None \<Rightarrow> ''undefined'' | Some s \<Rightarrow> s)"

text \<open>\<open>v || d\<close> for a string property: \<open>undefined\<close> and the empty string are falsy.\<close>

definition or_default :: "string option \<Rightarrow> string \<Rightarrow> string" where
  "or_default v d = (case v of None \<Rightarrow> d | Some s \<Rightarrow> if s = [] then d else s)"

section \<open>Events\<close>

text \<open>
  The \<open>data\<close> payload of an event, with the properties that the recorder, the inspection
  listener and the correlator read or write. Every producer in the sources builds a \<open>data\<close>
  object, so the payload is always present. The property \<open>method\<close> of the source is the
  field \<open>http_method\<close>.
\<close>

record call_frame =
  functionName :: "string option"
  frame_url :: "string option"
  frame_lineNumber :: "int option"
  frame_columnNumber :: "int option"

record event_data =
  message :: "string option"
  level :: "string option"
  source :: "string option"
  url :: "string option"
  http_method :: "string option"
  status :: "int option"
  statusText :: "string option"
  mimeType :: "string option"
  resourceType :: "string option"
  error :: "string option"
  canceled :: "bool option"
  blockedReason :: "string option"
  data_type :: "string option"
  lineNumber :: "int option"
  columnNumber :: "int option"
  stackTrace :: "call_frame list option"
  stack :: "string option"
  responseBody :: "string option"
  capturedBy :: "string option"

definition no_data :: event_data where
  "no_data = \<lparr>message = None, level = None, source = None, url = None, http_method = None,
     status = None, statusText = None, mimeType = None, resourceType = None, error = None,
     canceled = None, blockedReason = None, data_type = None, lineNumber = None,
     columnNumber = None, stackTrace = None, stack = None, responseBody = None,
     capturedBy = None\<rparr>"

text \<open>
  What a caller hands to \<open>addTimelineEvent\<close> (\<open>event_init\<close>), and the stored event, which
  adds the two clock readings.
\<close>

record event_init =
  type :: string
  subtype :: "string option"
  severity :: string
  data :: event_data

record event = event_init +
  timestamp :: string
  relativeTime :: int

text \<open>The two readings of the clock that a handler takes: \<open>Date.now()\<close> and the ISO rendering.\<close>

record clock =
  now :: int
  iso :: string

section \<open>The bug recorder: token optimisation helpers\<close>

definition shouldFilterConsoleEvent :: "event \<Rightarrow> bool" where
  "shouldFilterConsoleEvent e =
     (let src = or_default (source (data e)) '''';
          msg = or_default (message (data e)) ''''
      in if startsWith src ''chrome-extension://'' then True
         else if includes_str msg ''[code-inspector-plugin]'' then True
         else if includes_str msg ''[HMR]'' \<and> type e = ''console-log'' then True
         else False)"

definition shouldFilterNetworkEvent :: "event \<Rightarrow> bool" where
  "shouldFilterNetworkEvent e =
     (let u = or_default (url (data e)) '''';
          m = or_default (http_method (data e)) ''''
      in if includes_str u ''127.0.0.1:4242/health'' then True
         else if includes_str u ''localhost:4242/health'' then True
         else if m = ''OPTIONS'' then True
         else if includes_str u ''127.0.0.1:4242/api/backend'' then True
         else False)"

definition truncateMessage :: "string option \<Rightarrow> nat \<Rightarrow> string option" where
  "truncateMessage msg maxLength =
     (case msg of
        None \<Rightarrow> None
      | Some m \<Rightarrow>
          if m = [] then Some m
          else if length m \<le> maxLength then Some m
          else Some (take maxLength m @ ''...''))"

text \<open>
  \<open>stripConsoleStyling\<close>: the chain of regular-expression replacements and the final
  \<open>trim\<close> are the parameter \<open>rewrite\<close>; the guards around the chain are the source's.
\<close>

definition stripConsoleStyling :: "(string \<Rightarrow> string) \<Rightarrow> string option \<Rightarrow> string option" where
  "stripConsoleStyling rewrite msg =
     (case msg of
        None \<Rightarrow> None
      | Some m \<Rightarrow>
          if m = [] then Some m
          else (let cleaned = rewrite m in if cleaned = [] then Some m else Some cleaned))"

definition optimizeConsoleEvent :: "(string \<Rightarrow> string) \<Rightarrow> event \<Rightarrow> event" where
  "optimizeConsoleEvent rewrite e =
     e\<lparr>data := (data e)\<lparr>
          message := truncateMessage (stripConsoleStyling rewrite (message (data e))) 300,
          stackTrace := (if type e = ''console-log'' then None else stackTrace (data e))\<rparr>\<rparr>"

subsection \<open>dedupeEvents\<close>

text \<open>The test \<open>isSameMessage\<close> of the loop body; \<open>lastEvent\<close> is \<open>None\<close> before the first event.\<close>

definition isSameMessage :: "event option \<Rightarrow> event \<Rightarrow> bool" where
  "isSameMessage lastEvent e =
     (case lastEvent of
        None \<Rightarrow> False
      | Some l \<Rightarrow> type l = type e \<and> message (data l) = message (data e)
                 \<and> \<bar>relativeTime e - relativeTime l\<bar> < 100)"

text \<open>The annotation of a run's first event: the message followed by the count in parentheses.\<close>

definition repeat_suffix :: "nat \<Rightarrow> string" where
  "repeat_suffix repeatCount = '' ('' @ [CHR 0xD7] @ string_of_nat (repeatCount + 1) @ '')''"

definition annotate :: "event \<Rightarrow> nat \<Rightarrow> event" where
  "annotate l repeatCount =
     (if repeatCount > 0
      then l\<lparr>data := (data l)\<lparr>message :=
              Some (template_str (message (data l)) @ repeat_suffix repeatCount)\<rparr>\<rparr>
      else l)"

text \<open>\<open>if (lastEvent) { ...; deduped.push(lastEvent) }\<close>: what is appended to \<open>deduped\<close>.\<close>

definition push_last :: "event option \<Rightarrow> nat \<Rightarrow> event list" where
  "push_last lastEvent repeatCount =
     (case lastEvent of None \<Rightarrow> [] | Some l \<Rightarrow> [annotate l repeatCount])"

text \<open>The \<open>for\<close> loop, with its three variables \<open>deduped\<close>, \<open>lastEvent\<close> and \<open>repeatCount\<close>.\<close>

fun dedupe_loop :: "event list \<Rightarrow> event list \<Rightarrow> event option \<Rightarrow> nat
                     \<Rightarrow> event list \<times> event option \<times> nat" where
  "dedupe_loop [] deduped lastEvent repeatCount = (deduped, lastEvent, repeatCount)"
| "dedupe_loop (e # es) deduped lastEvent repeatCount =
     (if isSameMessage lastEvent e
      then dedupe_loop es deduped lastEvent (repeatCount + 1)
      else dedupe_loop es (deduped @ push_last lastEvent repeatCount) (Some e) 0)"

definition dedupeEvents :: "event list \<Rightarrow> event list" where
  "dedupeEvents events =
     (if events = [] then events
      else (case dedupe_loop events [] None 0 of
              (deduped, lastEvent, repeatCount) \<Rightarrow> deduped @ push_last lastEvent repeatCount))"

text \<open>
  Following the wording of the specification ("collapse the run into a single event"): the
  input cut into runs, each a first event with the events collapsed into it. It is compared
  with \<open>dedupeEvents\<close> below.
\<close>

function dedupe_runs :: "event list \<Rightarrow> (event \<times> event list) list" where
  "dedupe_runs [] = []"
| "dedupe_runs (e # es) =
     (e, takeWhile (isSameMessage (Some e)) es)
       # dedupe_runs (dropWhile (isSameMessage (Some e)) es)"
  by pat_completeness auto
termination
  by (relation "measure length") (auto simp: length_dropWhile_le less_Suc_eq_le)

section \<open>The bug recorder: session buffers and the timeline\<close>

text \<open>
  \<open>recordingData\<close> with its four event buffers (its \<open>metadata\<close> and \<open>screenshot\<close> are
  not read by the functions below). It is \<open>null\<close> until \<open>startRecording\<close> has run.
\<close>

record recording_data =
  console :: "event list"
  network :: "event list"
  interactions :: "event list"
  backendLogs :: "event list"

record recorder =
  isRecording :: bool
  startTime :: int
  recordingData :: "recording_data option"

datatype js_error = TypeError

text \<open>
  \<open>addTimelineEvent\<close>: the spread of the caller's object follows the two clock readings.
  A \<open>push\<close> on the buffers of a \<open>null\<close> \<open>recordingData\<close> throws.
\<close>

definition timelineEvent :: "clock \<Rightarrow> int \<Rightarrow> event_init \<Rightarrow> event" where
  "timelineEvent clk start ev =
     \<lparr>type = type ev, subtype = subtype ev, severity = severity ev, data = data ev,
      timestamp = iso clk, relativeTime = now clk - start\<rparr>"

definition push_buffer ::
  "(recording_data \<Rightarrow> recording_data) \<Rightarrow> recorder \<Rightarrow> js_error + recorder" where
  "push_buffer upd r =
     (case recordingData r of
        None \<Rightarrow> Inl TypeError
      | Some rd \<Rightarrow> Inr (r\<lparr>recordingData := Some (upd rd)\<rparr>))"

definition addTimelineEvent :: "clock \<Rightarrow> event_init \<Rightarrow> recorder \<Rightarrow> js_error + recorder" where
  "addTimelineEvent clk ev r =
     (let te = timelineEvent clk (startTime r) ev
      in if startsWith (type ev) ''console''
           then push_buffer (\<lambda>rd. rd\<lparr>console := console rd @ [te]\<rparr>) r
         else if type ev = ''network''
           then push_buffer (\<lambda>rd. rd\<lparr>network := network rd @ [te]\<rparr>) r
         else if startsWith (type ev) ''user-interaction''
           then push_buffer (\<lambda>rd. rd\<lparr>interactions := interactions rd @ [te]\<rparr>) r
         else Inr r)"

record summary =
  totalEvents :: nat
  userInteractions :: nat
  networkRequests :: nat
  networkFailures :: nat
  consoleErrors :: nat
  summary_backendLogs :: nat
  backendErrors :: nat
  consoleWarnings :: nat
  consoleLogs :: nat

record timeline =
  events :: "event list"
  summary :: summary

text \<open>
  \<open>generateTimeline\<close> on the recording data. \<open>Array.prototype.sort\<close> with the comparator
  \<open>a.relativeTime - b.relativeTime\<close> is a stable sort on the key \<open>relativeTime\<close>.
\<close>

definition generateTimeline :: "(string \<Rightarrow> string) \<Rightarrow> recording_data \<Rightarrow> timeline" where
  "generateTimeline rewrite rd =
     (let filteredConsole =
            map (optimizeConsoleEvent rewrite)
              (filter (\<lambda>e. \<not> shouldFilterConsoleEvent e) (console rd));
          filteredNetwork = filter (\<lambda>e. \<not> shouldFilterNetworkEvent e) (network rd);
          backend =
            map (\<lambda>e. e\<lparr>data := (data e)\<lparr>message := truncateMessage (message (data e)) 300\<rparr>\<rparr>)
              (backendLogs rd);
          allEvents = filteredConsole @ filteredNetwork @ interactions rd @ backend;
          sorted_events = sort_key relativeTime allEvents;
          deduped = dedupeEvents sorted_events
      in \<lparr>events = deduped,
          summary = \<lparr>
            totalEvents = length deduped,
            userInteractions = length (interactions rd),
            networkRequests = length filteredNetwork,
            networkFailures = length (filter (\<lambda>e. subtype e = Some ''failed'') filteredNetwork),
            consoleErrors = length (filter (\<lambda>e. type e = ''console-error'') filteredConsole),
            summary_backendLogs = length backend,
            backendErrors = length (filter (\<lambda>e. type e = ''backend-error'') backend),
            consoleWarnings = length (filter (\<lambda>e. type e = ''console-warning'') filteredConsole),
            consoleLogs = length (filter (\<lambda>e. type e = ''console-log'') filteredConsole)\<rparr>\<rparr>)"

subsection \<open>Key issues\<close>

text \<open>
  A key issue. \<open>isRootCause\<close> is set on one object only and absent on the others; absent
  is \<open>False\<close>.
\<close>

record key_issue =
  ki_type :: string
  ki_description :: "string option"
  ki_timestamp :: string
  ki_relativeTime :: int
  ki_severity :: string
  ki_source :: "string option"
  ki_lineNumber :: "int option"
  ki_url :: "string option"
  ki_status :: "int option"
  ki_responseBody :: "string option"
  ki_stack :: "string option"
  isRootCause :: bool

definition console_error_issue :: "event \<Rightarrow> key_issue" where
  "console_error_issue e =
     \<lparr>ki_type = ''console-error'', ki_description = message (data e),
      ki_timestamp = timestamp e, ki_relativeTime = relativeTime e, ki_severity = ''error'',
      ki_source = source (data e), ki_lineNumber = lineNumber (data e), ki_url = None,
      ki_status = None, ki_responseBody = None, ki_stack = None, isRootCause = False\<rparr>"

text \<open>\<open>status || 'unknown'\<close> inside the template: \<open>undefined\<close> and 0 are falsy.\<close>

definition status_or_unknown :: "int option \<Rightarrow> string" where
  "status_or_unknown st =
     (case st of None \<Rightarrow> ''unknown'' | Some n \<Rightarrow> if n = 0 then ''unknown'' else string_of_int n)"

definition network_failure_issue :: "event \<Rightarrow> key_issue" where
  "network_failure_issue e =
     \<lparr>ki_type = ''network-failure'',
      ki_description = Some (template_str (http_method (data e)) @ '' '' @ template_str (url (data e))
                             @ '' failed with status '' @ status_or_unknown (status (data e))),
      ki_timestamp = timestamp e, ki_relativeTime = relativeTime e, ki_severity = ''error'',
      ki_source = None, ki_lineNumber = None, ki_url = url (data e),
      ki_status = status (data e), ki_responseBody = responseBody (data e), ki_stack = None,
      isRootCause = False\<rparr>"

definition backend_error_issue :: "event \<Rightarrow> key_issue" where
  "backend_error_issue e =
     \<lparr>ki_type = ''backend-error'', ki_description = message (data e),
      ki_timestamp = timestamp e, ki_relativeTime = relativeTime e, ki_severity = ''error'',
      ki_source = Some ''backend'', ki_lineNumber = None, ki_url = None,
      ki_status = None, ki_responseBody = None, ki_stack = stack (data e), isRootCause = False\<rparr>"

text \<open>
  The closing block of both versions of \<open>analyzeKeyIssues\<close>: sort in place by
  \<open>relativeTime\<close>, then set \<open>isRootCause\<close> on the element at index 0.
\<close>

definition mark_root_cause :: "key_issue list \<Rightarrow> key_issue list" where
  "mark_root_cause keyIssues =
     (if length keyIssues > 0
      then (let sorted_issues = sort_key ki_relativeTime keyIssues
            in sorted_issues[0 := (sorted_issues ! 0)\<lparr>isRootCause := True\<rparr>])
      else keyIssues)"

text \<open>The recorder with backend logs: console errors of browser extensions are skipped.\<close>

definition analyzeKeyIssues :: "timeline \<Rightarrow> key_issue list" where
  "analyzeKeyIssues tline =
     (let consoleErrs =
            filter (\<lambda>e. if type e \<noteq> ''console-error'' then False
                        else if startsWith (or_default (source (data e)) '''') ''chrome-extension://''
                        then False else True) (events tline);
          networkFails =
            filter (\<lambda>e. type e = ''network'' \<and> subtype e = Some ''failed'') (events tline);
          backendErrs = filter (\<lambda>e. type e = ''backend-error'') (events tline)
      in mark_root_cause
           (map console_error_issue consoleErrs @ map network_failure_issue networkFails
              @ map backend_error_issue backendErrs))"

text \<open>The recorder without backend logs.\<close>

definition analyzeKeyIssues_basic :: "timeline \<Rightarrow> key_issue list" where
  "analyzeKeyIssues_basic tline =
     (let consoleErrs = filter (\<lambda>e. type e = ''console-error'') (events tline);
          networkFails =
            filter (\<lambda>e. type e = ''network'' \<and> subtype e = Some ''failed'') (events tline)
      in mark_root_cause
           (map console_error_issue consoleErrs @ map network_failure_issue networkFails))"

text \<open>A sample event for the concrete checks: \<open>console.log('tick')\<close> captured at time \<open>t\<close>.\<close>

definition console_log_at :: "int \<Rightarrow> event" where
  "console_log_at t =
     \<lparr>type = ''console-log'', subtype = None, severity = ''info'',
      data = no_data\<lparr>message := Some ''tick'', level := Some ''log''\<rparr>,
      timestamp = '''', relativeTime = t\<rparr>"

section \<open>The background script: the inspection listener\<close>

text \<open>
  One recording per tab: the captured events, the start time and the pending requests
  (\<open>requestId\<close> to the url and method seen in \<open>Network.requestWillBeSent\<close>).
\<close>

record pending_request =
  request_url :: string
  request_method :: string

record recording =
  rec_events :: "event list"
  rec_startTime :: int
  pendingRequests :: "string \<rightharpoonup> pending_request"

text \<open>The parameters of the inspection events that the listener reads.\<close>

record response =
  response_url :: string
  response_status :: int
  response_statusText :: string
  response_mimeType :: string

record log_entry =
  entry_level :: string
  entry_text :: string
  entry_source :: string
  entry_url :: "string option"
  entry_lineNumber :: "int option"

text \<open>
  A console argument (a remote object). \<open>arg_value\<close> is the value as \<open>String\<close> renders it
  (a string value is itself), \<open>None\<close> when the object has no value.
\<close>

record property_preview =
  prop_name :: "string option"
  prop_value :: "string option"

record object_preview =
  preview_properties :: "property_preview list option"
  preview_description :: "string option"

record remote_object =
  arg_type :: string
  arg_value :: "string option"
  arg_description :: "string option"
  arg_preview :: "object_preview option"

record exception_details =
  exception_text :: "string option"
  exception_description :: "string option"
  exception_url :: "string option"
  exception_lineNumber :: "int option"
  exception_columnNumber :: "int option"
  exception_callFrames :: "call_frame list option"

text \<open>
  An inspection event: the method name with its parameters. \<open>callFrames\<close> of a console call
  is \<open>None\<close> when \<open>params.stackTrace\<close> or its \<open>callFrames\<close> is missing.
\<close>

datatype cdp_event =
    ResponseReceived string response "string option"
  | LoadingFailed string "string option" "bool option" "string option"
  | RequestWillBeSent string string string
  | LogEntryAdded log_entry
  | ConsoleAPICalled string "remote_object list" "call_frame list option"
  | ExceptionThrown exception_details
  | OtherMethod string

text \<open>\<open>xs.join(sep)\<close> on strings.\<close>

fun join_str :: "string \<Rightarrow> string list \<Rightarrow> string" where
  "join_str sep [] = []"
| "join_str sep [x] = x"
| "join_str sep (x # y # ys) = x @ sep @ join_str sep (y # ys)"

text \<open>A number property inside a template literal.\<close>

definition template_int :: "int option \<Rightarrow> string" where
  "template_int v = (case v of None \<Rightarrow> ''undefined'' | Some i \<Rightarrow> string_of_int i)"

text \<open>The url test for the extension's own scripts.\<close>

definition isPointaUrl :: "string option \<Rightarrow> bool" where
  "isPointaUrl u =
     (case u of
        None \<Rightarrow> False
      | Some s \<Rightarrow> includes_str s ''chrome-extension://''
                  \<and> (includes_str s ''/content/'' \<or> includes_str s ''/background/''
                       \<or> includes_str s ''/popup/''))"

text \<open>
  The conversion of one console argument; \<open>None\<close> is \<open>undefined\<close>, which \<open>join\<close> prints
  as the empty string.
\<close>

definition arg_message :: "remote_object \<Rightarrow> string option" where
  "arg_message arg =
     (if arg_type arg = ''string'' then arg_value arg
      else if arg_type arg = ''number'' then Some (template_str (arg_value arg))
      else if arg_type arg = ''boolean'' then Some (template_str (arg_value arg))
      else if arg_type arg = ''undefined'' then Some ''undefined''
      else if arg_type arg = ''object'' then
        (case arg_preview arg of
           Some pv \<Rightarrow>
             (case preview_properties pv of
                Some props \<Rightarrow>
                  Some (''{'' @ join_str '', ''
                          (map (\<lambda>p. template_str (prop_name p) @ '': '' @ template_str (prop_value p))
                             props) @ ''}'')
              | None \<Rightarrow> Some (or_default (preview_description pv) ''[Object]''))
         | None \<Rightarrow> Some (or_default (arg_description arg) ''[Object]''))
      else Some (or_default (arg_description arg)
                   (or_default (Some (template_str (arg_value arg))) ''[Unknown]'')))"

definition args_message :: "remote_object list \<Rightarrow> string" where
  "args_message args =
     join_str '' '' (map (\<lambda>a. case arg_message a of None \<Rightarrow> [] | Some s \<Rightarrow> s) args)"

text \<open>The frame objects forwarded with a console call: the first three, three properties each.\<close>

definition forwarded_frames :: "call_frame list \<Rightarrow> call_frame list" where
  "forwarded_frames frames =
     map (\<lambda>f. \<lparr>functionName = functionName f, frame_url = frame_url f,
               frame_lineNumber = frame_lineNumber f, frame_columnNumber = None\<rparr>)
       (take 3 frames)"

text \<open>The \<open>stack\<close> string of an uncaught exception: one line per call frame.\<close>

definition stack_line :: "call_frame \<Rightarrow> string" where
  "stack_line f =
     ''    at '' @ or_default (functionName f) ''(anonymous)'' @ '' ('' @ template_str (frame_url f)
       @ '':'' @ template_int (frame_lineNumber f) @ '':'' @ template_int (frame_columnNumber f)
       @ '')''"

definition exception_stack :: "call_frame list \<Rightarrow> string" where
  "exception_stack frames = join_str [CHR 0x0A] (map stack_line frames)"

text \<open>The level of a console message mapped to the event type and severity.\<close>

definition level_type :: "string \<Rightarrow> string \<times> string" where
  "level_type lvl =
     (if lvl = ''error'' then (''console-error'', ''error'')
      else if lvl = ''warning'' then (''console-warning'', ''warning'')
      else (''console-log'', ''info''))"

definition push_event :: "event \<Rightarrow> recording \<Rightarrow> recording" where
  "push_event e r = r\<lparr>rec_events := rec_events r @ [e]\<rparr>"

text \<open>
  The body of the \<open>chrome.debugger.onEvent\<close> listener for a tab that has a recording.
  \<open>trackedRequest?.method || 'GET'\<close> and \<open>request?.url || 'unknown'\<close> fall back when there
  is no entry or the recorded string is empty.
\<close>

fun on_cdp_event :: "clock \<Rightarrow> cdp_event \<Rightarrow> recording \<Rightarrow> recording" where
  "on_cdp_event clk (ResponseReceived requestId resp rtype) r =
     (let isSuccess = (response_status resp \<ge> 200 \<and> response_status resp < 400);
          trackedRequest = pendingRequests r requestId
      in push_event
           \<lparr>type = ''network'',
            subtype = Some (if isSuccess then ''success'' else ''failed''),
            severity = (if isSuccess then ''info'' else ''error''),
            data = no_data\<lparr>
              url := Some (response_url resp),
              http_method := Some (or_default (map_option request_method trackedRequest) ''GET''),
              status := Some (response_status resp),
              statusText := Some (response_statusText resp),
              mimeType := Some (response_mimeType resp),
              resourceType := rtype,
              data_type := Some ''cdp''\<rparr>,
            timestamp = iso clk, relativeTime = now clk - rec_startTime r\<rparr> r)"
| "on_cdp_event clk (LoadingFailed requestId errorText cancel blocked) r =
     (let request = pendingRequests r requestId
      in push_event
           \<lparr>type = ''network'', subtype = Some ''failed'', severity = ''error'',
            data = no_data\<lparr>
              url := Some (or_default (map_option request_url request) ''unknown''),
              http_method := Some (or_default (map_option request_method request) ''unknown''),
              error := errorText,
              canceled := cancel,
              blockedReason := blocked,
              data_type := Some ''cdp''\<rparr>,
            timestamp = iso clk, relativeTime = now clk - rec_startTime r\<rparr> r)"
| "on_cdp_event clk (RequestWillBeSent requestId u m) r =
     r\<lparr>pendingRequests := (pendingRequests r)(requestId \<mapsto>
          \<lparr>request_url = u, request_method = m\<rparr>)\<rparr>"
| "on_cdp_event clk (LogEntryAdded entry) r =
     (if isPointaUrl (entry_url entry) then r
      else push_event
             \<lparr>type = fst (level_type (entry_level entry)), subtype = None,
              severity = snd (level_type (entry_level entry)),
              data = no_data\<lparr>
                message := Some (entry_text entry),
                level := Some (entry_level entry),
                source := Some (entry_source entry),
                url := entry_url entry,
                lineNumber := entry_lineNumber entry\<rparr>,
              timestamp = iso clk, relativeTime = now clk - rec_startTime r\<rparr> r)"
| "on_cdp_event clk (ConsoleAPICalled ctype args frames) r =
     (let callFrames = (case frames of None \<Rightarrow> [] | Some fs \<Rightarrow> fs)
      in if list_ex (\<lambda>f. isPointaUrl (frame_url f)) callFrames then r
         else push_event
                \<lparr>type = fst (level_type ctype), subtype = None,
                 severity = snd (level_type ctype),
                 data = no_data\<lparr>
                   message := Some (args_message args),
                   level := Some ctype,
                   stackTrace := map_option forwarded_frames frames\<rparr>,
                 timestamp = iso clk, relativeTime = now clk - rec_startTime r\<rparr> r)"
| "on_cdp_event clk (ExceptionThrown exc) r =
     push_event
       \<lparr>type = ''console-error'', subtype = None, severity = ''error'',
        data = no_data\<lparr>
          message := Some (or_default (exception_text exc)
                             (or_default (exception_description exc) ''Uncaught exception'')),
          level := Some ''error'',
          source := exception_url exc,
          lineNumber := exception_lineNumber exc,
          columnNumber := exception_columnNumber exc,
          stack := map_option exception_stack (exception_callFrames exc)\<rparr>,
        timestamp = iso clk, relativeTime = now clk - rec_startTime r\<rparr> r"
| "on_cdp_event clk (OtherMethod m) r = r"

section \<open>The background script: the debugger attachment and its two consumers\<close>

text \<open>
  \<open>attached\<close> is the browser's side: the tabs that have the debugger attached.
  \<open>viewportOverrides\<close> and \<open>cdpRecordings\<close> are the two maps of the background script.
  Whether a call of \<open>chrome.debugger\<close> succeeds is decided by the browser; each operation
  takes the outcome of each of its calls as an argument (\<open>True\<close> for success), in the order
  of the calls.
\<close>

type_synonym tab_id = nat

record background =
  attached :: "tab_id set"
  viewportOverrides :: "tab_id \<rightharpoonup> int \<times> int"
  cdpRecordings :: "tab_id \<rightharpoonup> recording"

datatype chrome_error = AttachFailed | CommandFailed string | DetachFailed

definition debugger_attach :: "tab_id \<Rightarrow> background \<Rightarrow> background" where
  "debugger_attach tabId s = s\<lparr>attached := insert tabId (attached s)\<rparr>"

definition debugger_detach :: "tab_id \<Rightarrow> background \<Rightarrow> background" where
  "debugger_detach tabId s = s\<lparr>attached := attached s - {tabId}\<rparr>"

text \<open>The listener: events of a tab without a recording are ignored.\<close>

definition onEvent :: "clock \<Rightarrow> tab_id \<Rightarrow> cdp_event \<Rightarrow> background \<Rightarrow> background" where
  "onEvent clk tabId ev s =
     (case cdpRecordings s tabId of
        None \<Rightarrow> s
      | Some r \<Rightarrow> s\<lparr>cdpRecordings := (cdpRecordings s)(tabId \<mapsto> on_cdp_event clk ev r)\<rparr>)"

text \<open>\<open>setViewport\<close>: outcomes of \<open>attach\<close> and of \<open>Emulation.setDeviceMetricsOverride\<close>.\<close>

definition setViewport ::
  "tab_id \<Rightarrow> int \<Rightarrow> int \<Rightarrow> bool \<Rightarrow> bool \<Rightarrow> background \<Rightarrow> (chrome_error + unit) \<times> background" where
  "setViewport tabId width height attach_ok metrics_ok s =
     (let isAttached = (viewportOverrides s tabId \<noteq> None)
      in if \<not> isAttached \<and> \<not> attach_ok then (Inl AttachFailed, s)
         else (let s1 = (if \<not> isAttached then debugger_attach tabId s else s)
               in if \<not> metrics_ok
                  then (Inl (CommandFailed ''Emulation.setDeviceMetricsOverride''), s1)
                  else (Inr (), s1\<lparr>viewportOverrides :=
                                    (viewportOverrides s1)(tabId \<mapsto> (width, height))\<rparr>)))"

text \<open>
  \<open>resetViewport\<close>: outcomes of \<open>Emulation.clearDeviceMetricsOverride\<close> and of \<open>detach\<close>.
  An error is logged and not thrown again, so the result is the state alone.
\<close>

definition resetViewport :: "tab_id \<Rightarrow> bool \<Rightarrow> bool \<Rightarrow> background \<Rightarrow> background" where
  "resetViewport tabId clear_ok detach_ok s =
     (if \<not> clear_ok then s
      else if \<not> detach_ok then s
      else (let s1 = debugger_detach tabId s
            in s1\<lparr>viewportOverrides := (viewportOverrides s1)(tabId := None)\<rparr>))"

text \<open>
  \<open>startCDPRecording\<close>: outcomes of \<open>attach\<close>, \<open>Network.enable\<close>, \<open>Log.enable\<close> and
  \<open>Runtime.enable\<close>. The \<open>catch\<close> block deletes the tab's recording and throws again.
\<close>

definition start_failed ::
  "tab_id \<Rightarrow> chrome_error \<Rightarrow> background \<Rightarrow> (chrome_error + unit) \<times> background" where
  "start_failed tabId err s = (Inl err, s\<lparr>cdpRecordings := (cdpRecordings s)(tabId := None)\<rparr>)"

definition startCDPRecording ::
  "tab_id \<Rightarrow> clock \<Rightarrow> bool \<Rightarrow> bool \<Rightarrow> bool \<Rightarrow> bool \<Rightarrow> background
     \<Rightarrow> (chrome_error + unit) \<times> background" where
  "startCDPRecording tabId clk attach_ok network_ok log_ok runtime_ok s =
     (if cdpRecordings s tabId \<noteq> None then (Inr (), s)
      else (let s1 = s\<lparr>cdpRecordings := (cdpRecordings s)(tabId \<mapsto>
                          \<lparr>rec_events = [], rec_startTime = now clk,
                           pendingRequests = Map.empty\<rparr>)\<rparr>;
                isAttached = (viewportOverrides s1 tabId \<noteq> None)
            in if \<not> isAttached \<and> \<not> attach_ok then start_failed tabId AttachFailed s1
               else (let s2 = (if \<not> isAttached then debugger_attach tabId s1 else s1)
                     in if \<not> network_ok
                          then start_failed tabId (CommandFailed ''Network.enable'') s2
                        else if \<not> log_ok
                          then start_failed tabId (CommandFailed ''Log.enable'') s2
                        else if \<not> runtime_ok
                          then start_failed tabId (CommandFailed ''Runtime.enable'') s2
                        else (Inr (), s2))))"

text \<open>
  \<open>stopCDPRecording\<close>: the three \<open>disable\<close> commands change nothing here and their errors
  are swallowed, as is an error of \<open>detach\<close>; the argument is the outcome of \<open>detach\<close>.
  The result is the pair of network and console events.
\<close>

definition stopCDPRecording ::
  "tab_id \<Rightarrow> bool \<Rightarrow> background \<Rightarrow> (event list \<times> event list) \<times> background" where
  "stopCDPRecording tabId detach_ok s =
     (case cdpRecordings s tabId of
        None \<Rightarrow> (([], []), s)
      | Some r \<Rightarrow>
          (let s1 = (if viewportOverrides s tabId = None
                     then (if detach_ok then debugger_detach tabId s else s)
                     else s);
               evs = rec_events r;
               s2 = s1\<lparr>cdpRecordings := (cdpRecordings s1)(tabId := None)\<rparr>
           in ((filter (\<lambda>e. type e = ''network'') evs,
                filter (\<lambda>e. startsWith (type e) ''console'') evs), s2)))"

text \<open>A state for the concrete checks: tab 1 with a viewport override and a recording.\<close>

definition both_active :: background where
  "both_active =
     \<lparr>attached = {1},
      viewportOverrides = [1 \<mapsto> (375, 667)],
      cdpRecordings = [1 \<mapsto> \<lparr>rec_events = [], rec_startTime = 0, pendingRequests = Map.empty\<rparr>]\<rparr>"

section \<open>The backend log clients\<close>

text \<open>
  The socket's \<open>readyState\<close>, the frames a client sends and the control messages it
  receives. The text of a log message is taken as \<open>formatArgs\<close> has rendered it.
\<close>

datatype ready_state = CONNECTING | OPEN | CLOSING | CLOSED

record log_message =
  log_level :: string
  log_text :: string
  log_timestamp :: string
  log_stack :: "string option"
  log_source :: "string option"

datatype frame = Register string | Log log_message | Pong

datatype server_message = StartRecording "bool option" | StopRecording | Ping | Unknown

subsection \<open>The preloaded client\<close>

text \<open>
  The module variables of the preloaded script. \<open>p_ws\<close> is \<open>None\<close> for \<open>null\<close> and holds the
  socket's \<open>readyState\<close> otherwise; \<open>p_timers\<close> are the delays of the pending
  \<open>setTimeout(connect, delay)\<close> calls and \<open>p_sent\<close> the frames handed to \<open>ws.send\<close>.
\<close>

record preload =
  p_ws :: "ready_state option"
  p_isRecording :: bool
  captureStdout :: bool
  stdoutHooked :: bool
  messageQueue :: "log_message list"
  p_reconnectAttempts :: nat
  p_timers :: "nat list"
  p_sent :: "frame list"

definition MAX_RECONNECT_ATTEMPTS :: nat where
  "MAX_RECONNECT_ATTEMPTS = 10"

text \<open>\<open>Math.min(1000 * Math.pow(2, reconnectAttempts), 30000)\<close>.\<close>

definition preload_delay :: "nat \<Rightarrow> nat" where
  "preload_delay attempts = min (1000 * 2 ^ attempts) 30000"

text \<open>
  \<open>sendLog(level, args, stack)\<close>; \<open>msg\<close> is the message object it builds. The same
  branch ends \<open>sendStdoutLog\<close>.
\<close>

definition send_or_queue :: "log_message \<Rightarrow> preload \<Rightarrow> preload" where
  "send_or_queue msg s =
     (if p_ws s = Some OPEN then s\<lparr>p_sent := p_sent s @ [Log msg]\<rparr>
      else s\<lparr>messageQueue := messageQueue s @ [msg]\<rparr>)"

definition sendLog :: "log_message \<Rightarrow> preload \<Rightarrow> preload" where
  "sendLog msg s = (if \<not> p_isRecording s then s else send_or_queue msg s)"

text \<open>
  \<open>connect()\<close>: \<open>ws_available\<close> says whether \<open>require('ws')\<close> succeeds and \<open>created\<close>
  whether the constructor returns; both failures are silent.
\<close>

definition preload_connect :: "bool \<Rightarrow> bool \<Rightarrow> preload \<Rightarrow> preload" where
  "preload_connect ws_available created s =
     (if p_reconnectAttempts s \<ge> MAX_RECONNECT_ATTEMPTS then s
      else if \<not> ws_available then s
      else if \<not> created then s
      else s\<lparr>p_ws := Some CONNECTING\<rparr>)"

text \<open>The handlers of the socket. \<open>serverPort\<close> is read from the environment.\<close>

definition preload_on_open :: "string \<Rightarrow> preload \<Rightarrow> preload" where
  "preload_on_open serverPort s =
     s\<lparr>p_ws := Some OPEN,
       p_reconnectAttempts := 0,
       p_sent := p_sent s @ [Register serverPort] @ map Log (messageQueue s),
       messageQueue := []\<rparr>"

definition preload_on_message :: "server_message \<Rightarrow> preload \<Rightarrow> preload" where
  "preload_on_message msg s =
     (case msg of
        StartRecording cap \<Rightarrow>
          (let c = (cap = Some True)
           in s\<lparr>p_isRecording := True, captureStdout := c,
                 stdoutHooked := (if c then True else stdoutHooked s)\<rparr>)
      | StopRecording \<Rightarrow> s\<lparr>p_isRecording := False, captureStdout := False, stdoutHooked := False\<rparr>
      | Ping \<Rightarrow> s\<lparr>p_sent := p_sent s @ [Pong]\<rparr>
      | Unknown \<Rightarrow> s)"

definition preload_on_close :: "preload \<Rightarrow> preload" where
  "preload_on_close s =
     s\<lparr>p_ws := None,
       p_reconnectAttempts := p_reconnectAttempts s + 1,
       p_timers := p_timers s @ [preload_delay (p_reconnectAttempts s + 1)]\<rparr>"

text \<open>
  What can happen in the process. A socket event needs a socket: \<open>open\<close> comes to a
  connecting socket, \<open>message\<close> to an open one, \<open>close\<close> to any; a timer fires only if one
  is pending. An event that cannot happen in a state leaves it unchanged.
\<close>

datatype preload_event =
    SocketOpen string
  | SocketMessage server_message
  | SocketClose
  | TimerFires bool bool
  | ConsoleCall log_message

fun preload_step :: "preload_event \<Rightarrow> preload \<Rightarrow> preload" where
  "preload_step (SocketOpen port) s =
     (if p_ws s = Some CONNECTING then preload_on_open port s else s)"
| "preload_step (SocketMessage m) s =
     (if p_ws s = Some OPEN then preload_on_message m s else s)"
| "preload_step SocketClose s =
     (if p_ws s \<noteq> None then preload_on_close s else s)"
| "preload_step (TimerFires ws_available created) s =
     (case p_timers s of
        [] \<Rightarrow> s
      | d # ds \<Rightarrow> preload_connect ws_available created (s\<lparr>p_timers := ds\<rparr>))"
| "preload_step (ConsoleCall msg) s = sendLog msg s"

fun preload_run :: "preload_event list \<Rightarrow> preload \<Rightarrow> preload" where
  "preload_run [] s = s"
| "preload_run (e # es) s = preload_run es (preload_step e s)"

text \<open>The state after module load and the first \<open>connect()\<close>.\<close>

definition preload_init :: preload where
  "preload_init =
     \<lparr>p_ws = Some CONNECTING, p_isRecording = False, captureStdout = False,
      stdoutHooked = False, messageQueue = [], p_reconnectAttempts = 0, p_timers = [],
      p_sent = []\<rparr>"

subsection \<open>The logger class of the SDK\<close>

text \<open>
  The fields of \<open>PointaServerLogger\<close>. \<open>l_ws\<close> keeps the socket after it has closed (its
  \<open>readyState\<close> is then \<open>CLOSED\<close>). \<open>reconnectTimer\<close> is the delay of the pending timer,
  \<open>None\<close> when none is pending; \<open>l_sent\<close> are the frames handed to \<open>ws.send\<close>. Delays
  are exact rationals (\<open>Math.pow(1.5, k)\<close> is exact
  for the exponents below the attempt limit).
\<close>

record logger =
  l_ws :: "ready_state option"
  isConnected :: bool
  l_isRecording :: bool
  l_reconnectAttempts :: nat
  reconnectTimer :: "rat option"
  buffer :: "frame list"
  l_sent :: "frame list"
  consoleIntercepted :: bool

definition maxReconnectAttempts :: nat where
  "maxReconnectAttempts = 5"

definition reconnectDelay :: rat where
  "reconnectDelay = 2000"

definition maxBufferSize :: nat where
  "maxBufferSize = 100"

definition scheduleReconnect :: "logger \<Rightarrow> logger" where
  "scheduleReconnect s =
     (let s1 = s\<lparr>reconnectTimer := None\<rparr>
      in if l_reconnectAttempts s1 \<ge> maxReconnectAttempts then s1
         else (let n = l_reconnectAttempts s1 + 1
               in s1\<lparr>l_reconnectAttempts := n,
                     reconnectTimer := Some (reconnectDelay * (3 / 2) ^ (n - 1))\<rparr>))"

text \<open>\<open>send(data)\<close>; an exception of \<open>ws.send\<close> is swallowed.\<close>

definition logger_send :: "frame \<Rightarrow> logger \<Rightarrow> logger" where
  "logger_send d s =
     (if l_ws s = Some OPEN then s\<lparr>l_sent := l_sent s @ [d]\<rparr>
      else if length (buffer s) < maxBufferSize then s\<lparr>buffer := buffer s @ [d]\<rparr>
      else s)"

text \<open>\<open>flushBuffer()\<close>: the loop shifts an entry and sends it while the socket is open.\<close>

function flushBuffer :: "logger \<Rightarrow> logger" where
  "flushBuffer s =
     (case buffer s of
        [] \<Rightarrow> s
      | d # ds \<Rightarrow>
          if l_ws s = Some OPEN then flushBuffer (logger_send d (s\<lparr>buffer := ds\<rparr>))
          else s)"
  by pat_completeness auto
termination
  by (relation "measure (\<lambda>s. length (buffer s))") (auto simp: logger_send_def)

definition logger_connect :: "bool \<Rightarrow> logger \<Rightarrow> logger" where
  "logger_connect created s =
     (if l_ws s = Some CONNECTING \<or> l_ws s = Some OPEN then s
      else if created then s\<lparr>l_ws := Some CONNECTING\<rparr>
      else scheduleReconnect s)"

definition logger_on_open :: "logger \<Rightarrow> logger" where
  "logger_on_open s =
     (flushBuffer (s\<lparr>l_ws := Some OPEN, isConnected := True, l_reconnectAttempts := 0\<rparr>))
       \<lparr>consoleIntercepted := True\<rparr>"

definition logger_on_close :: "logger \<Rightarrow> logger" where
  "logger_on_close s =
     scheduleReconnect
       (s\<lparr>l_ws := Some CLOSED, isConnected := False, l_isRecording := False,
          consoleIntercepted := False\<rparr>)"

text \<open>The \<open>error\<close> handler; \<open>refused\<close> says that the code is \<open>ECONNREFUSED\<close>.\<close>

definition logger_on_error :: "bool \<Rightarrow> logger \<Rightarrow> logger" where
  "logger_on_error refused s = (if refused then scheduleReconnect s else s)"

text \<open>The state a new logger has after its constructor.\<close>

definition logger_new :: logger where
  "logger_new =
     \<lparr>l_ws = None, isConnected = False, l_isRecording = False, l_reconnectAttempts = 0,
      reconnectTimer = None, buffer = [], l_sent = [], consoleIntercepted = False\<rparr>"

section \<open>Sample inputs\<close>

text \<open>
  The scenario of the specification: a console error at 500 ms from the extension's own
  script, a failed request for \<open>/api/data\<close> (status 500) at 800 ms and a console error of
  the page at 820 ms.
\<close>

definition console_error_at :: "int \<Rightarrow> string \<Rightarrow> string \<Rightarrow> event" where
  "console_error_at t src msg =
     \<lparr>type = ''console-error'', subtype = None, severity = ''error'',
      data = no_data\<lparr>message := Some msg, level := Some ''error'', source := Some src\<rparr>,
      timestamp = '''', relativeTime = t\<rparr>"

definition network_failure_at :: "int \<Rightarrow> string \<Rightarrow> string \<Rightarrow> int \<Rightarrow> event" where
  "network_failure_at t m u st =
     \<lparr>type = ''network'', subtype = Some ''failed'', severity = ''error'',
      data = no_data\<lparr>url := Some u, http_method := Some m, status := Some st,
                      data_type := Some ''cdp''\<rparr>,
      timestamp = '''', relativeTime = t\<rparr>"

definition scenario_data :: recording_data where
  "scenario_data =
     \<lparr>console = [console_error_at 500 ''chrome-extension://abc/content/main.js'' ''own'',
                 console_error_at 820 ''http://localhost:3000/app.js'' ''boom''],
      network = [network_failure_at 800 ''GET'' ''/api/data'' 500],
      interactions = [],
      backendLogs = []\<rparr>"

text \<open>The final step of \<open>dedupeEvents\<close>, applied to the three variables of the loop.\<close>

definition finish :: "event list \<times> event option \<times> nat \<Rightarrow> event list" where
  "finish r =
     (case r of (deduped, lastEvent, repeatCount) \<Rightarrow> deduped @ push_last lastEvent repeatCount)"

text \<open>
  The two marker events that \<open>startRecording\<close> and \<open>stopRecording\<close> hand to
  \<open>addTimelineEvent\<close> (of their \<open>data\<close>, the properties that \<open>event_data\<close> has).
\<close>

definition recording_start_event :: "string \<Rightarrow> event_init" where
  "recording_start_event href =
     \<lparr>type = ''recording-start'', subtype = None, severity = ''info'',
      data = no_data\<lparr>url := Some href\<rparr>\<rparr>"

definition recording_end_event :: event_init where
  "recording_end_event =
     \<lparr>type = ''recording-end'', subtype = None, severity = ''info'',
      data = no_data\<lparr>http_method := Some ''user-stopped''\<rparr>\<rparr>"

text \<open>A recorder in the middle of the scenario's session, and a clock reading.\<close>

definition scenario_recorder :: recorder where
  "scenario_recorder = \<lparr>isRecording = True, startTime = 1000, recordingData = Some scenario_data\<rparr>"

definition clock_at :: "int \<Rightarrow> clock" where
  "clock_at t = \<lparr>now = t, iso = ''''\<rparr>"

text \<open>No event of the recorder's buffers is a start or end marker.\<close>

definition is_marker :: "string \<Rightarrow> bool" where
  "is_marker ty = (ty = ''recording-start'' \<or> ty = ''recording-end'')"

definition marker_free :: "recording_data \<Rightarrow> bool" where
  "marker_free rd =
     list_all (\<lambda>e. \<not> is_marker (type e))
       (console rd @ network rd @ interactions rd @ backendLogs rd)"

text \<open>
  A recording started at time 1000, a request \<open>r1\<close> and its two possible ends, and an
  uncaught exception with four call frames.
\<close>

definition fresh_recording :: recording where
  "fresh_recording = \<lparr>rec_events = [], rec_startTime = 1000, pendingRequests = Map.empty\<rparr>"

definition request_r1 :: cdp_event where
  "request_r1 = RequestWillBeSent ''r1'' ''http://localhost:3000/api/data'' ''POST''"

definition failure_r1 :: cdp_event where
  "failure_r1 = LoadingFailed ''r1'' (Some ''net::ERR_CONNECTION_REFUSED'') (Some False) None"

definition response_r1 :: cdp_event where
  "response_r1 =
     ResponseReceived ''r1''
       \<lparr>response_url = ''http://localhost:3000/api/v2/data'', response_status = 500,
        response_statusText = ''Internal Server Error'', response_mimeType = ''text/plain''\<rparr>
       (Some ''Fetch'')"

definition frame_at :: "string \<Rightarrow> int \<Rightarrow> call_frame" where
  "frame_at fn line =
     \<lparr>functionName = Some fn, frame_url = Some ''app.js'', frame_lineNumber = Some line,
      frame_columnNumber = Some 1\<rparr>"

definition four_frames :: "call_frame list" where
  "four_frames = [frame_at ''a'' 1, frame_at ''b'' 2, frame_at ''c'' 3, frame_at ''d'' 4]"

definition exception_four :: cdp_event where
  "exception_four =
     ExceptionThrown
       \<lparr>exception_text = Some ''Uncaught'', exception_description = None,
        exception_url = Some ''app.js'', exception_lineNumber = Some 1,
        exception_columnNumber = Some 1, exception_callFrames = Some four_frames\<rparr>"

definition console_four :: cdp_event where
  "console_four =
     ConsoleAPICalled ''error''
       [\<lparr>arg_type = ''string'', arg_value = Some ''boom'', arg_description = None,
         arg_preview = None\<rparr>]
       (Some four_frames)"

text \<open>The events that a handler call has pushed: what follows the old events.\<close>

definition pushed :: "recording \<Rightarrow> recording \<Rightarrow> event list" where
  "pushed r r' = drop (length (rec_events r)) (rec_events r')"

text \<open>The background script before any call.\<close>

definition background_init :: background where
  "background_init = \<lparr>attached = {}, viewportOverrides = Map.empty, cdpRecordings = Map.empty\<rparr>"

text \<open>The recording after the request \<open>r1\<close> has started.\<close>

definition recording_r1 :: recording where
  "recording_r1 = on_cdp_event (clock_at 1000) request_r1 fresh_recording"

text \<open>
  The callback of the logger's reconnect timer (\<open>setTimeout(() => this.connect(), delay)\<close>):
  the pending timer is spent and \<open>connect\<close> runs.
\<close>

definition logger_timer_fires :: "bool \<Rightarrow> logger \<Rightarrow> logger" where
  "logger_timer_fires created s = logger_connect created (s\<lparr>reconnectTimer := None\<rparr>)"

text \<open>
  Sample states of the two clients: log messages, a logger whose first socket is connecting,
  a logger with a full buffer and a closed socket, and the preloaded client after it was told
  to record and then lost its socket.
\<close>

definition log_line :: "string \<Rightarrow> log_message" where
  "log_line txt =
     \<lparr>log_level = ''log'', log_text = txt, log_timestamp = '''', log_stack = None,
      log_source = None\<rparr>"

definition logger_connecting :: logger where
  "logger_connecting = logger_connect True logger_new"

definition full_logger :: logger where
  "full_logger =
     logger_new\<lparr>l_ws := Some CLOSED, buffer := replicate 100 (Log (log_line ''old''))\<rparr>"

definition preload_recording_offline :: preload where
  "preload_recording_offline =
     preload_run [SocketOpen ''3000'', SocketMessage (StartRecording None), SocketClose]
       preload_init"

text \<open>
  Connection failures in a row: for the preloaded client, ten rounds of a close followed by
  the timer that reconnects; for the logger, a number of rounds of the same.
\<close>

definition ten_failures :: "preload_event list" where
  "ten_failures = concat (replicate 10 [SocketClose, TimerFires True True])"

fun logger_failures :: "nat \<Rightarrow> logger \<Rightarrow> logger" where
  "logger_failures 0 s = s"
| "logger_failures (Suc k) s = logger_failures k (logger_timer_fires True (logger_on_close s))"

text \<open>Any number of such rounds for the preloaded client.\<close>

definition failed_rounds :: "nat \<Rightarrow> preload_event list" where
  "failed_rounds k = concat (replicate k [SocketClose, TimerFires True True])"

section \<open>Properties of the correlator\<close>

declare string_of_nat.simps [simp del]

declare flushBuffer.simps [simp del]

subsection \<open>Deduplication\<close>

lemma dedupeEvents_Cons: "dedupeEvents (e # es) = finish (dedupe_loop es [] (Some e) 0)"
  by (simp add: dedupeEvents_def finish_def isSameMessage_def push_last_def)

lemma dedupe_loop_run:
  "finish (dedupe_loop es d (Some l) rc) =
     d @ annotate l (rc + length (takeWhile (isSameMessage (Some l)) es))
       # dedupeEvents (dropWhile (isSameMessage (Some l)) es)"
proof (induction es arbitrary: d l rc)
  case Nil
  then show ?case by (simp add: finish_def push_last_def dedupeEvents_def)
next
  case (Cons x xs)
  show ?case
  proof (cases "isSameMessage (Some l) x")
    case True
    then show ?thesis using Cons.IH [of d l "rc + 1"] by simp
  next
    case False
    then show ?thesis
      using Cons.IH [of "d @ [annotate l rc]" x 0] Cons.IH [of "[]" x 0]
      by (simp add: dedupeEvents_Cons push_last_def)
  qed
qed

lemma dedupeEvents_unfold:
  "dedupeEvents (e # es) =
     annotate e (length (takeWhile (isSameMessage (Some e)) es))
       # dedupeEvents (dropWhile (isSameMessage (Some e)) es)"
  using dedupe_loop_run [of es "[]" e 0] by (simp add: dedupeEvents_Cons)

lemma dedupeEvents_runs:
  "dedupeEvents xs = map (\<lambda>(l, fs). annotate l (length fs)) (dedupe_runs xs)"
proof (induction xs rule: dedupe_runs.induct)
  case 1
  show ?case by (simp add: dedupeEvents_def)
next
  case (2 e es)
  then show ?case by (simp add: dedupeEvents_unfold)
qed

lemma concat_dedupe_runs: "concat (map (\<lambda>(l, fs). l # fs) (dedupe_runs xs)) = xs"
  by (induction xs rule: dedupe_runs.induct) simp_all

lemma relativeTime_annotate: "relativeTime (annotate l n) = relativeTime l"
  by (simp add: annotate_def)

lemma type_annotate: "type (annotate l n) = type l"
  by (simp add: annotate_def)

lemma dedupe_runs_same:
  "(l, fs) \<in> set (dedupe_runs xs) \<Longrightarrow> x \<in> set fs \<Longrightarrow> isSameMessage (Some l) x"
proof (induction xs rule: dedupe_runs.induct)
  case 1
  then show ?case by simp
next
  case (2 e es)
  then show ?case by (auto dest: set_takeWhileD)
qed

lemma dedupe_runs_leader_first:
  "sorted (map relativeTime xs) \<Longrightarrow> (l, fs) \<in> set (dedupe_runs xs) \<Longrightarrow> x \<in> set fs
     \<Longrightarrow> relativeTime l \<le> relativeTime x"
proof (induction xs rule: dedupe_runs.induct)
  case 1
  then show ?case by simp
next
  case (2 e es)
  have srt: "sorted (map relativeTime (dropWhile (isSameMessage (Some e)) es))"
    using "2.prems"(1) by (simp add: sorted_wrt_dropWhile sorted_map)
  show ?case
  proof (cases "(l, fs) = (e, takeWhile (isSameMessage (Some e)) es)")
    case True
    then have "x \<in> set es" using "2.prems"(3) by (auto dest: set_takeWhileD)
    then show ?thesis using "2.prems"(1) True by auto
  next
    case False
    then have "(l, fs) \<in> set (dedupe_runs (dropWhile (isSameMessage (Some e)) es))"
      using "2.prems"(2) by auto
    then show ?thesis using "2.IH" srt "2.prems"(3) by blast
  qed
qed

lemma dedupe_runs_within:
  assumes "sorted (map relativeTime xs)" and "(l, fs) \<in> set (dedupe_runs xs)"
    and "x \<in> set (l # fs)" and "y \<in> set (l # fs)"
  shows "\<bar>relativeTime x - relativeTime y\<bar> < 100"
proof -
  have bound: "relativeTime l \<le> relativeTime z \<and> relativeTime z < relativeTime l + 100"
    if "z \<in> set (l # fs)" for z
  proof (cases "z = l")
    case True
    then show ?thesis by simp
  next
    case False
    then have zin: "z \<in> set fs" using that by simp
    have "isSameMessage (Some l) z" using dedupe_runs_same [OF assms(2) zin] .
    moreover have "relativeTime l \<le> relativeTime z"
      using dedupe_runs_leader_first [OF assms(1) assms(2) zin] .
    ultimately show ?thesis by (simp add: isSameMessage_def)
  qed
  from bound [OF assms(3)] bound [OF assms(4)] show ?thesis by linarith
qed

text \<open>
  Claim C3, as the code has it. \<open>dedupeEvents\<close> cuts its input into runs of consecutive
  events: an event joins the current run exactly when it has the type and the message of the
  run's first event and lies less than 100 ms from that first event. A run is collapsed into
  its first event, whose message gets the suffix with the count when the run has two or more
  events and is unchanged otherwise. On time-sorted input any two events of one run are less
  than 100 ms apart, so events 100 ms or more apart are never collapsed.
\<close>

theorem dedupeEvents_collapses_runs:
  "dedupeEvents (e # es) =
      annotate e (length (takeWhile (isSameMessage (Some e)) es))
        # dedupeEvents (dropWhile (isSameMessage (Some e)) es)
   \<and> (0 < n \<longrightarrow> message (data (annotate e n)) =
         Some (template_str (message (data e)) @ '' ('' @ [CHR 0xD7] @ string_of_nat (n + 1) @ '')''))
   \<and> annotate e 0 = e
   \<and> dedupeEvents xs = map (\<lambda>(l, fs). annotate l (length fs)) (dedupe_runs xs)
   \<and> concat (map (\<lambda>(l, fs). l # fs) (dedupe_runs xs)) = xs
   \<and> (\<forall>(l, fs) \<in> set (dedupe_runs xs). \<forall>x \<in> set fs.
         type x = type l \<and> message (data x) = message (data l)
         \<and> \<bar>relativeTime x - relativeTime l\<bar> < 100)
   \<and> (sorted (map relativeTime xs) \<longrightarrow>
         (\<forall>(l, fs) \<in> set (dedupe_runs xs). \<forall>x \<in> set (l # fs). \<forall>y \<in> set (l # fs).
            \<bar>relativeTime x - relativeTime y\<bar> < 100))"
proof -
  have same: "\<forall>(l, fs) \<in> set (dedupe_runs xs). \<forall>x \<in> set fs.
         type x = type l \<and> message (data x) = message (data l)
         \<and> \<bar>relativeTime x - relativeTime l\<bar> < 100"
    using dedupe_runs_same [of _ _ xs] by (fastforce simp: isSameMessage_def)
  have within: "sorted (map relativeTime xs) \<longrightarrow>
         (\<forall>(l, fs) \<in> set (dedupe_runs xs). \<forall>x \<in> set (l # fs). \<forall>y \<in> set (l # fs).
            \<bar>relativeTime x - relativeTime y\<bar> < 100)"
    using dedupe_runs_within [of xs] by blast
  have ann: "0 < n \<longrightarrow> message (data (annotate e n)) =
         Some (template_str (message (data e)) @ '' ('' @ [CHR 0xD7] @ string_of_nat (n + 1) @ '')'')"
    by (simp add: annotate_def repeat_suffix_def)
  have ann0: "annotate e 0 = e" by (simp add: annotate_def)
  show ?thesis
    using dedupeEvents_unfold [of e es] dedupeEvents_runs [of xs] concat_dedupe_runs [of xs]
      same within ann ann0 by blast
qed

text \<open>
  Claim C3 as stated fails: the events at 60 ms and 120 ms have the same type and message and
  are 60 ms apart, yet the second is not collapsed, because it is 120 ms from the first event
  of the run; and two events exactly 100 ms apart are not collapsed either.
\<close>

theorem dedupeEvents_chain_counterexample:
  "type (console_log_at 60) = type (console_log_at 120)
   \<and> message (data (console_log_at 60)) = message (data (console_log_at 120))
   \<and> \<bar>relativeTime (console_log_at 120) - relativeTime (console_log_at 60)\<bar> \<le> 100
   \<and> dedupeEvents [console_log_at 0, console_log_at 60, console_log_at 120]
       = [(console_log_at 0)\<lparr>data := (data (console_log_at 0))\<lparr>message := Some (''tick ('' @ [CHR 0xD7] @ ''2)'')\<rparr>\<rparr>,
          console_log_at 120]
   \<and> \<bar>relativeTime (console_log_at 100) - relativeTime (console_log_at 0)\<bar> \<le> 100
   \<and> dedupeEvents [console_log_at 0, console_log_at 100] = [console_log_at 0, console_log_at 100]"
  by (simp add: dedupeEvents_def isSameMessage_def push_last_def console_log_at_def annotate_def
      repeat_suffix_def template_str_def string_of_nat.simps digit_char_def no_data_def)


lemma dedupeEvents_relativeTime_subset:
  "relativeTime ` set (dedupeEvents xs) \<subseteq> relativeTime ` set xs"
proof -
  have "set (map relativeTime (dedupeEvents xs)) \<subseteq> set (map relativeTime xs)"
  proof (induction xs rule: dedupe_runs.induct)
    case 1
    show ?case by (simp add: dedupeEvents_def)
  next
    case (2 e es)
    have "set (dropWhile (isSameMessage (Some e)) es) \<subseteq> set es"
      by (auto dest: set_dropWhileD)
    then show ?case using 2 by (auto simp: dedupeEvents_unfold relativeTime_annotate)
  qed
  then show ?thesis by simp
qed

lemma sorted_dedupeEvents:
  "sorted (map relativeTime xs) \<Longrightarrow> sorted (map relativeTime (dedupeEvents xs))"
proof (induction xs rule: dedupe_runs.induct)
  case 1
  show ?case by (simp add: dedupeEvents_def)
next
  case (2 e es)
  let ?rest = "dropWhile (isSameMessage (Some e)) es"
  have srt: "sorted (map relativeTime ?rest)"
    using "2.prems" by (simp add: sorted_wrt_dropWhile sorted_map)
  have lower: "\<forall>t \<in> relativeTime ` set es. relativeTime e \<le> t"
    using "2.prems" by auto
  have "relativeTime ` set (dedupeEvents ?rest) \<subseteq> relativeTime ` set ?rest"
    by (rule dedupeEvents_relativeTime_subset)
  also have "\<dots> \<subseteq> relativeTime ` set es"
    by (auto dest: set_dropWhileD)
  finally have "\<forall>t \<in> relativeTime ` set (dedupeEvents ?rest). relativeTime e \<le> t"
    using lower by blast
  then show ?case
    using "2.IH" [OF srt] by (simp add: dedupeEvents_unfold relativeTime_annotate)
qed

text \<open>
  Claim C4: for every recording data, the events of the timeline that \<open>generateTimeline\<close>
  produces are sorted by non-decreasing \<open>relativeTime\<close>.
\<close>

theorem generateTimeline_sorted:
  "sorted (map relativeTime (events (generateTimeline rewrite rd)))"
  by (simp add: generateTimeline_def Let_def sorted_dedupeEvents)

lemma scenario_events:
  "events (generateTimeline id scenario_data)
      = [network_failure_at 800 ''GET'' ''/api/data'' 500,
         console_error_at 820 ''http://localhost:3000/app.js'' ''boom'']"
  by (simp add: generateTimeline_def scenario_data_def shouldFilterConsoleEvent_def
      shouldFilterNetworkEvent_def or_default_def startsWith_def console_error_at_def
      network_failure_at_def no_data_def optimizeConsoleEvent_def truncateMessage_def
      stripConsoleStyling_def dedupeEvents_def isSameMessage_def push_last_def annotate_def)

theorem generateTimeline_sorted_scenario:
  "map relativeTime (events (generateTimeline id scenario_data)) = [800, 820]
   \<and> sorted (map relativeTime (events (generateTimeline id scenario_data)))"
  using generateTimeline_sorted [of id scenario_data]
  by (simp add: scenario_events network_failure_at_def console_error_at_def)

subsection \<open>The root cause among the key issues\<close>

lemma mark_root_cause_sorted:
  "mark_root_cause ks =
     (case sort_key ki_relativeTime ks of
        [] \<Rightarrow> []
      | k # rest \<Rightarrow> k\<lparr>isRootCause := True\<rparr> # rest)"
proof (cases ks)
  case Nil
  then show ?thesis by (simp add: mark_root_cause_def)
next
  case (Cons a as)
  then have "sort_key ki_relativeTime ks \<noteq> []"
    by (metis length_sort list.size(3) nat.distinct(1) length_Cons)
  then obtain k rest where "sort_key ki_relativeTime ks = k # rest"
    by (cases "sort_key ki_relativeTime ks") auto
  then show ?thesis using Cons by (simp add: mark_root_cause_def)
qed

lemma mark_root_cause_unique:
  assumes "\<forall>k \<in> set ks. \<not> isRootCause k"
  shows "length (filter isRootCause (mark_root_cause ks)) = (if ks = [] then 0 else 1)"
    and "\<forall>x \<in> set (mark_root_cause ks). isRootCause x \<longrightarrow>
           (\<forall>y \<in> set (mark_root_cause ks). ki_relativeTime x \<le> ki_relativeTime y)"
    and "sorted (map ki_relativeTime (mark_root_cause ks))"
    and "mark_root_cause ks = [] \<longleftrightarrow> ks = []"
proof -
  have all: "length (filter isRootCause (mark_root_cause ks)) = (if ks = [] then 0 else 1)
    \<and> (\<forall>x \<in> set (mark_root_cause ks). isRootCause x \<longrightarrow>
           (\<forall>y \<in> set (mark_root_cause ks). ki_relativeTime x \<le> ki_relativeTime y))
    \<and> sorted (map ki_relativeTime (mark_root_cause ks))
    \<and> (mark_root_cause ks = [] \<longleftrightarrow> ks = [])" (is "?goal")
  proof (cases "sort_key ki_relativeTime ks")
    case Nil
    then have "ks = []" by (metis length_sort length_0_conv)
    then show ?thesis by (simp add: mark_root_cause_def)
  next
    case (Cons k rest)
    have srt: "sorted (map ki_relativeTime (k # rest))"
      using sorted_sort_key [of ki_relativeTime ks] Cons by simp
    have "set (k # rest) = set ks" using set_sort [of ki_relativeTime ks] Cons by simp
    then have flags: "\<forall>x \<in> set rest. \<not> isRootCause x" using assms by auto
    have ne: "ks \<noteq> []" using Cons by auto
    have m: "mark_root_cause ks = k\<lparr>isRootCause := True\<rparr> # rest"
      by (simp add: mark_root_cause_sorted Cons)
    have f: "filter isRootCause rest = []" using flags by (simp add: filter_empty_conv)
    show ?thesis using srt flags ne f by (auto simp: m)
  qed
  then show "length (filter isRootCause (mark_root_cause ks)) = (if ks = [] then 0 else 1)"
    and "\<forall>x \<in> set (mark_root_cause ks). isRootCause x \<longrightarrow>
           (\<forall>y \<in> set (mark_root_cause ks). ki_relativeTime x \<le> ki_relativeTime y)"
    and "sorted (map ki_relativeTime (mark_root_cause ks))"
    and "mark_root_cause ks = [] \<longleftrightarrow> ks = []" by blast+
qed

lemma issues_unflagged:
  "\<not> isRootCause (console_error_issue e)" "\<not> isRootCause (network_failure_issue e)"
  "\<not> isRootCause (backend_error_issue e)"
  by (simp_all add: console_error_issue_def network_failure_issue_def backend_error_issue_def)

lemma analyzeKeyIssues_marks:
  "\<exists>ks. analyzeKeyIssues tline = mark_root_cause ks \<and> (\<forall>k \<in> set ks. \<not> isRootCause k)"
  unfolding analyzeKeyIssues_def Let_def
  by (intro exI conjI, rule refl) (auto simp: issues_unflagged)

lemma analyzeKeyIssues_basic_marks:
  "\<exists>ks. analyzeKeyIssues_basic tline = mark_root_cause ks \<and> (\<forall>k \<in> set ks. \<not> isRootCause k)"
  unfolding analyzeKeyIssues_basic_def Let_def
  by (intro exI conjI, rule refl) (auto simp: issues_unflagged)

text \<open>
  Claim C5: in the list that \<open>analyzeKeyIssues\<close> returns (either version of the recorder),
  exactly one key issue has \<open>isRootCause\<close> when the list is not empty and none when it is
  empty, and the flagged issue has the least \<open>relativeTime\<close> of all.
\<close>

theorem analyzeKeyIssues_one_root_cause:
  "length (filter isRootCause (analyzeKeyIssues tline))
      = (if analyzeKeyIssues tline = [] then 0 else 1)
   \<and> (\<forall>x \<in> set (analyzeKeyIssues tline). isRootCause x \<longrightarrow>
         (\<forall>y \<in> set (analyzeKeyIssues tline). ki_relativeTime x \<le> ki_relativeTime y))
   \<and> length (filter isRootCause (analyzeKeyIssues_basic tline))
      = (if analyzeKeyIssues_basic tline = [] then 0 else 1)
   \<and> (\<forall>x \<in> set (analyzeKeyIssues_basic tline). isRootCause x \<longrightarrow>
         (\<forall>y \<in> set (analyzeKeyIssues_basic tline). ki_relativeTime x \<le> ki_relativeTime y))"
proof -
  obtain ks where ks: "analyzeKeyIssues tline = mark_root_cause ks"
    and kf: "\<forall>k \<in> set ks. \<not> isRootCause k"
    using analyzeKeyIssues_marks by blast
  obtain bs where bs: "analyzeKeyIssues_basic tline = mark_root_cause bs"
    and bf: "\<forall>k \<in> set bs. \<not> isRootCause k"
    using analyzeKeyIssues_basic_marks by blast
  show ?thesis
    using mark_root_cause_unique [OF kf] mark_root_cause_unique [OF bf]
    unfolding ks bs by presburger
qed

subsection \<open>Marker events\<close>

lemma addTimelineEvent_marker:
  assumes "is_marker (type ev)"
  shows "addTimelineEvent clk ev r = Inr r"
  using assms by (auto simp: addTimelineEvent_def startsWith_def is_marker_def)

text \<open>
  Claim C10: \<open>addTimelineEvent\<close> with an event of type \<open>recording-start\<close> or
  \<open>recording-end\<close> returns normally and leaves the recorder, with all its buffers, as it was.
\<close>

theorem addTimelineEvent_discards_markers:
  assumes "type ev = ''recording-start'' \<or> type ev = ''recording-end''"
  shows "addTimelineEvent clk ev r = Inr r"
  using assms by (auto simp: addTimelineEvent_def startsWith_def)

theorem addTimelineEvent_discards_markers_scenario:
  "addTimelineEvent (clock_at 1000) (recording_start_event ''http://localhost:3000/'')
       scenario_recorder = Inr scenario_recorder
   \<and> addTimelineEvent (clock_at 31000) recording_end_event scenario_recorder
       = Inr scenario_recorder"
proof -
  have h1: "type (recording_start_event ''http://localhost:3000/'') = ''recording-start''
            \<or> type (recording_start_event ''http://localhost:3000/'') = ''recording-end''"
    by (simp add: recording_start_event_def)
  have h2: "type recording_end_event = ''recording-start''
            \<or> type recording_end_event = ''recording-end''"
    by (simp add: recording_end_event_def)
  show ?thesis
    by (rule conjI [OF addTimelineEvent_discards_markers [OF h1]
                       addTimelineEvent_discards_markers [OF h2]])
qed

text \<open>
  The timeline takes the types of its events from the buffers, so a timeline generated from
  buffers without marker events has none.
\<close>

lemma type_in_dedupeEvents:
  "type ` set (dedupeEvents xs) \<subseteq> type ` set xs"
proof -
  have "set (map type (dedupeEvents xs)) \<subseteq> set (map type xs)"
  proof (induction xs rule: dedupe_runs.induct)
    case 1
    show ?case by (simp add: dedupeEvents_def)
  next
    case (2 e es)
    have "set (dropWhile (isSameMessage (Some e)) es) \<subseteq> set es"
      by (auto dest: set_dropWhileD)
    then show ?case using 2 by (auto simp: dedupeEvents_unfold type_annotate)
  qed
  then show ?thesis by simp
qed

lemma type_optimizeConsoleEvent: "type (optimizeConsoleEvent rewrite e) = type e"
  by (simp add: optimizeConsoleEvent_def)

lemma generateTimeline_events:
  "events (generateTimeline rewrite rd) =
     dedupeEvents (sort_key relativeTime
       (map (optimizeConsoleEvent rewrite)
          (filter (\<lambda>e. \<not> shouldFilterConsoleEvent e) (console rd))
        @ filter (\<lambda>e. \<not> shouldFilterNetworkEvent e) (network rd)
        @ interactions rd
        @ map (\<lambda>e. e\<lparr>data := (data e)\<lparr>message := truncateMessage (message (data e)) 300\<rparr>\<rparr>)
            (backendLogs rd)))"
  by (simp add: generateTimeline_def Let_def)

lemma in_merged_cases:
  assumes "y \<in> set (map f (filter P cs) @ filter Q ns @ is @ map g bs)"
  shows "(\<exists>z \<in> set cs. y = f z) \<or> y \<in> set ns \<or> y \<in> set is \<or> (\<exists>z \<in> set bs. y = g z)"
  using assms by auto

lemma in_sorted_types:
  "t \<in> f ` set (dedupeEvents (sort_key k xs)) \<Longrightarrow> f ` set (dedupeEvents (sort_key k xs)) \<subseteq> f ` set (sort_key k xs)
     \<Longrightarrow> \<exists>y \<in> set xs. f y = t"
  by (metis imageE set_sort subsetD)

lemma generateTimeline_types:
  assumes "e \<in> set (events (generateTimeline rewrite rd))"
  shows "\<exists>x \<in> set (console rd) \<union> set (network rd) \<union> set (interactions rd)
               \<union> set (backendLogs rd). type x = type e"
proof -
  have "type e \<in> type ` set (events (generateTimeline rewrite rd))"
    using assms by (rule imageI)
  then obtain y where y: "y \<in> set
       (map (optimizeConsoleEvent rewrite)
          (filter (\<lambda>e. \<not> shouldFilterConsoleEvent e) (console rd))
        @ filter (\<lambda>e. \<not> shouldFilterNetworkEvent e) (network rd)
        @ interactions rd
        @ map (\<lambda>e. e\<lparr>data := (data e)\<lparr>message := truncateMessage (message (data e)) 300\<rparr>\<rparr>)
            (backendLogs rd))" and ty: "type y = type e"
    unfolding generateTimeline_events
    using in_sorted_types [OF _ type_in_dedupeEvents] by blast
  from in_merged_cases [OF y] show ?thesis
  proof (elim disjE bexE)
    fix z assume "z \<in> set (console rd)" "y = optimizeConsoleEvent rewrite z"
    then show ?thesis using ty type_optimizeConsoleEvent [of rewrite z] by auto
  next
    assume "y \<in> set (network rd)"
    then show ?thesis using ty by auto
  next
    assume "y \<in> set (interactions rd)"
    then show ?thesis using ty by auto
  next
    fix z assume z: "z \<in> set (backendLogs rd)"
      and "y = z\<lparr>data := (data z)\<lparr>message := truncateMessage (message (data z)) 300\<rparr>\<rparr>"
    then have "type z = type y" by simp
    then show ?thesis using ty z by auto
  qed
qed

lemma generateTimeline_marker_free:
  assumes "marker_free rd"
  shows "list_all (\<lambda>e. \<not> is_marker (type e)) (events (generateTimeline rewrite rd))"
  unfolding list_all_iff
proof
  fix e assume "e \<in> set (events (generateTimeline rewrite rd))"
  from generateTimeline_types [OF this]
  obtain x where x: "x \<in> set (console rd) \<union> set (network rd) \<union> set (interactions rd)
               \<union> set (backendLogs rd)"
    and tx: "type x = type e" by blast
  have "\<not> is_marker (type x)"
    using assms x unfolding marker_free_def list_all_iff by auto
  then show "\<not> is_marker (type e)" by (simp add: tx)
qed

subsection \<open>The scenario of the specification\<close>

lemma scenario_issues:
  "map (\<lambda>k. (ki_type k, ki_description k, ki_relativeTime k, isRootCause k))
       (analyzeKeyIssues (generateTimeline id scenario_data))
     = [(''network-failure'', Some ''GET /api/data failed with status 500'', 800, True),
        (''console-error'', Some ''boom'', 820, False)]"
  by (simp add: analyzeKeyIssues_def scenario_events mark_root_cause_def
      network_failure_at_def console_error_at_def no_data_def or_default_def startsWith_def
      console_error_issue_def network_failure_issue_def template_str_def
      status_or_unknown_def string_of_int_def string_of_nat.simps digit_char_def)

lemma scenario_issues_basic:
  "map (\<lambda>k. (ki_type k, ki_relativeTime k, isRootCause k))
       (analyzeKeyIssues_basic (generateTimeline id scenario_data))
     = [(''network-failure'', 800, True), (''console-error'', 820, False)]"
  by (simp add: analyzeKeyIssues_basic_def scenario_events mark_root_cause_def
      network_failure_at_def console_error_at_def no_data_def
      console_error_issue_def network_failure_issue_def)

theorem analyzeKeyIssues_one_root_cause_scenario:
  "map (\<lambda>k. (ki_type k, ki_description k, ki_relativeTime k, isRootCause k))
       (analyzeKeyIssues (generateTimeline id scenario_data))
     = [(''network-failure'', Some ''GET /api/data failed with status 500'', 800, True),
        (''console-error'', Some ''boom'', 820, False)]
   \<and> length (filter isRootCause (analyzeKeyIssues (generateTimeline id scenario_data))) = 1
   \<and> length (filter isRootCause (analyzeKeyIssues_basic (generateTimeline id scenario_data))) = 1"
proof -
  have ne: "analyzeKeyIssues (generateTimeline id scenario_data) \<noteq> []"
    using scenario_issues by auto
  have ne_basic: "analyzeKeyIssues_basic (generateTimeline id scenario_data) \<noteq> []"
    using scenario_issues_basic by auto
  have one: "length (filter isRootCause (analyzeKeyIssues (generateTimeline id scenario_data)))
      = (if analyzeKeyIssues (generateTimeline id scenario_data) = [] then 0 else 1)"
    and one_basic:
      "length (filter isRootCause (analyzeKeyIssues_basic (generateTimeline id scenario_data)))
      = (if analyzeKeyIssues_basic (generateTimeline id scenario_data) = [] then 0 else 1)"
    using analyzeKeyIssues_one_root_cause [of "generateTimeline id scenario_data"] by blast+
  show ?thesis
    using one one_basic ne ne_basic scenario_issues by presburger
qed

subsection \<open>Every call keeps the buffers free of markers\<close>

lemma addTimelineEvent_keeps_marker_free:
  assumes run: "addTimelineEvent clk ev r = Inr r'" and rd: "recordingData r = Some rd"
    and mf: "marker_free rd"
  shows "\<exists>rd'. recordingData r' = Some rd' \<and> marker_free rd'"
proof (cases "is_marker (type ev)")
  case True
  then have "r' = r" using run addTimelineEvent_marker [OF True, of clk r] by simp
  then show ?thesis using rd mf by simp
next
  case False
  then have te: "\<not> is_marker (type (timelineEvent clk (startTime r) ev))"
    by (simp add: timelineEvent_def)
  show ?thesis
    using run rd mf te
    by (auto simp: addTimelineEvent_def push_buffer_def marker_free_def Let_def
        split: if_splits)
qed

subsection \<open>The chain of three events\<close>

theorem dedupeEvents_collapses_runs_chain:
  "sorted (map relativeTime [console_log_at 0, console_log_at 60, console_log_at 120])
   \<and> dedupe_runs [console_log_at 0, console_log_at 60, console_log_at 120]
        = [(console_log_at 0, [console_log_at 60]), (console_log_at 120, [])]
   \<and> dedupeEvents [console_log_at 0, console_log_at 60, console_log_at 120]
        = [annotate (console_log_at 0) 1, console_log_at 120]
   \<and> message (data (annotate (console_log_at 0) 1)) = Some (''tick ('' @ [CHR 0xD7] @ ''2)'')
   \<and> \<bar>relativeTime (console_log_at 60) - relativeTime (console_log_at 0)\<bar> < 100"
proof -
  let ?xs = "[console_log_at 0, console_log_at 60, console_log_at 120]"
  have srt: "sorted (map relativeTime ?xs)"
    by (simp add: console_log_at_def)
  have runs: "dedupe_runs ?xs = [(console_log_at 0, [console_log_at 60]), (console_log_at 120, [])]"
    by (simp add: isSameMessage_def console_log_at_def)
  have pos: "(0::nat) < 1" by simp
  note inst = dedupeEvents_collapses_runs [of "console_log_at 0" "[console_log_at 60, console_log_at 120]" 1 ?xs]
  have ded: "dedupeEvents ?xs = map (\<lambda>(l, fs). annotate l (length fs)) (dedupe_runs ?xs)"
    using inst by blast
  have msg: "message (data (annotate (console_log_at 0) 1)) =
         Some (template_str (message (data (console_log_at 0))) @ '' ('' @ [CHR 0xD7] @ string_of_nat (1 + 1) @ '')'')"
    using inst pos by blast
  have within: "\<forall>(l, fs) \<in> set (dedupe_runs ?xs). \<forall>x \<in> set (l # fs). \<forall>y \<in> set (l # fs).
            \<bar>relativeTime x - relativeTime y\<bar> < 100"
    using inst srt by blast
  have d2: "dedupeEvents ?xs = [annotate (console_log_at 0) 1, console_log_at 120]"
    unfolding ded runs by (simp add: annotate_def)
  have m2: "message (data (annotate (console_log_at 0) 1)) = Some (''tick ('' @ [CHR 0xD7] @ ''2)'')"
    unfolding msg by (simp add: console_log_at_def template_str_def string_of_nat.simps digit_char_def)
  have w2: "\<bar>relativeTime (console_log_at 60) - relativeTime (console_log_at 0)\<bar> < 100"
    using within unfolding runs by simp
  show ?thesis using srt runs d2 m2 w2 by blast
qed

section \<open>Properties of the inspection listener\<close>

subsection \<open>Network outcomes\<close>

lemma pushed_push_event: "pushed r (push_event e r) = [e]"
  by (simp add: pushed_def push_event_def)

lemma pendingRequests_push_event: "pendingRequests (push_event e r) = pendingRequests r"
  by (simp add: push_event_def)

lemma rec_events_push_event: "rec_events (push_event e r) = rec_events r @ [e]"
  by (simp add: push_event_def)

lemma or_default_Some: "s \<noteq> [] \<Longrightarrow> or_default (Some s) d = s"
  by (simp add: or_default_def)

text \<open>
  Claim C2, as the code has it. When a response or a loading failure arrives for a request
  whose start was recorded (with a non-empty method and url), the listener appends one network
  event that carries the recorded method; a loading failure also carries the recorded url,
  a response carries the url of the response. The pending-request map is left as it was: the
  entry is not removed.
\<close>

theorem terminal_outcome_keeps_pending:
  assumes "pendingRequests r requestId = Some p"
    and "request_method p \<noteq> []" and "request_url p \<noteq> []"
  shows "(\<exists>e. rec_events (on_cdp_event clk (ResponseReceived requestId resp rtype) r)
                 = rec_events r @ [e]
              \<and> type e = ''network''
              \<and> subtype e = Some (if 200 \<le> response_status resp \<and> response_status resp < 400
                                  then ''success'' else ''failed'')
              \<and> http_method (data e) = Some (request_method p)
              \<and> url (data e) = Some (response_url resp)
              \<and> relativeTime e = now clk - rec_startTime r)
         \<and> pendingRequests (on_cdp_event clk (ResponseReceived requestId resp rtype) r)
               = pendingRequests r
         \<and> (\<exists>e. rec_events (on_cdp_event clk (LoadingFailed requestId errorText cancel blocked) r)
                 = rec_events r @ [e]
              \<and> type e = ''network'' \<and> subtype e = Some ''failed''
              \<and> http_method (data e) = Some (request_method p)
              \<and> url (data e) = Some (request_url p)
              \<and> error (data e) = errorText
              \<and> relativeTime e = now clk - rec_startTime r)
         \<and> pendingRequests (on_cdp_event clk (LoadingFailed requestId errorText cancel blocked) r)
               = pendingRequests r"
  using assms
  by (simp add: rec_events_push_event pendingRequests_push_event or_default_Some Let_def)

lemma recording_r1_pending:
  "pendingRequests recording_r1 ''r1''
     = Some \<lparr>request_url = ''http://localhost:3000/api/data'', request_method = ''POST''\<rparr>"
  by (simp add: recording_r1_def request_r1_def fresh_recording_def)

theorem terminal_outcome_keeps_pending_r1:
  "pendingRequests (on_cdp_event (clock_at 1050) failure_r1 recording_r1) = pendingRequests recording_r1
   \<and> pendingRequests (on_cdp_event (clock_at 1050) response_r1 recording_r1)
       = pendingRequests recording_r1
   \<and> map (\<lambda>e. (type e, subtype e, http_method (data e), url (data e), relativeTime e))
         (rec_events (on_cdp_event (clock_at 1050) failure_r1 recording_r1))
       = [(''network'', Some ''failed'', Some ''POST'', Some ''http://localhost:3000/api/data'', 50)]"
proof -
  have m: "request_method \<lparr>request_url = ''http://localhost:3000/api/data'', request_method = ''POST''\<rparr> \<noteq> []"
    and u: "request_url \<lparr>request_url = ''http://localhost:3000/api/data'', request_method = ''POST''\<rparr> \<noteq> []"
    by simp_all
  note inst = terminal_outcome_keeps_pending [OF recording_r1_pending m u,
      of "clock_at 1050"
         "\<lparr>response_url = ''http://localhost:3000/api/v2/data'', response_status = 500,
           response_statusText = ''Internal Server Error'', response_mimeType = ''text/plain''\<rparr>"
         "Some ''Fetch''" "Some ''net::ERR_CONNECTION_REFUSED''" "Some False" None]
  have keep: "pendingRequests (on_cdp_event (clock_at 1050) failure_r1 recording_r1)
      = pendingRequests recording_r1"
    using inst unfolding failure_r1_def by blast
  have keep_response: "pendingRequests (on_cdp_event (clock_at 1050) response_r1 recording_r1)
      = pendingRequests recording_r1"
    using inst unfolding response_r1_def by blast
  have ev: "map (\<lambda>e. (type e, subtype e, http_method (data e), url (data e), relativeTime e))
         (rec_events (on_cdp_event (clock_at 1050) failure_r1 recording_r1))
       = [(''network'', Some ''failed'', Some ''POST'', Some ''http://localhost:3000/api/data'', 50)]"
    by (simp add: failure_r1_def recording_r1_def request_r1_def fresh_recording_def
        push_event_def or_default_def clock_at_def no_data_def)
  show ?thesis using keep keep_response ev by blast
qed

text \<open>
  Claim C2 as stated fails: after the failure of \<open>r1\<close>, and likewise after its response,
  the pending-request map still holds the entry of \<open>r1\<close>; and the response event carries
  the url of the response, which here is not the url recorded at the start.
\<close>

theorem pending_entry_survives_outcome:
  "pendingRequests (on_cdp_event (clock_at 1050) failure_r1 recording_r1) ''r1''
     = Some \<lparr>request_url = ''http://localhost:3000/api/data'', request_method = ''POST''\<rparr>
   \<and> pendingRequests (on_cdp_event (clock_at 1050) response_r1 recording_r1) ''r1''
     = Some \<lparr>request_url = ''http://localhost:3000/api/data'', request_method = ''POST''\<rparr>
   \<and> map (\<lambda>e. (subtype e, http_method (data e), url (data e)))
         (rec_events (on_cdp_event (clock_at 1050) response_r1 recording_r1))
       = [(Some ''failed'', Some ''POST'', Some ''http://localhost:3000/api/v2/data'')]"
  by (simp add: failure_r1_def response_r1_def recording_r1_def request_r1_def
      fresh_recording_def push_event_def or_default_def clock_at_def no_data_def)

subsection \<open>Stack traces\<close>

lemma pushed_same: "pushed r r = []"
  by (simp add: pushed_def)

lemma pushed_pending: "pushed r (r\<lparr>pendingRequests := m\<rparr>) = []"
  by (simp add: pushed_def)

lemma length_forwarded_frames: "length (forwarded_frames fs) = min 3 (length fs)"
  by (simp add: forwarded_frames_def min.commute)

lemma on_cdp_event_appends:
  "rec_events (on_cdp_event clk ev r) = rec_events r @ pushed r (on_cdp_event clk ev r)"
  by (cases ev) (simp_all add: pushed_def push_event_def Let_def)

lemma pushed_stackTrace_capped:
  assumes "e \<in> set (pushed r (on_cdp_event clk ev r))" and "stackTrace (data e) = Some fs"
  shows "length fs \<le> 3"
proof (cases ev)
  case (ConsoleAPICalled ctype args frames)
  then show ?thesis using assms
    by (cases frames)
       (auto simp: pushed_push_event pushed_same Let_def no_data_def length_forwarded_frames
          split: if_splits)
qed (use assms in \<open>auto simp: pushed_push_event pushed_same pushed_pending Let_def no_data_def
       split: if_splits\<close>)

text \<open>
  Claim C8, as the code has it. The listener only appends events. Every event it appends has
  a \<open>stackTrace\<close> of at most three frames: a console call forwards the first three call
  frames (function name, url and line of each) and no other event has a \<open>stackTrace\<close>. An
  uncaught exception carries instead the string \<open>stack\<close>, with one line for every call
  frame of the exception, however many there are.
\<close>

theorem forwarded_stackTrace_capped:
  "rec_events (on_cdp_event clk ev r) = rec_events r @ pushed r (on_cdp_event clk ev r)
   \<and> (\<forall>e \<in> set (pushed r (on_cdp_event clk ev r)).
         \<forall>fs. stackTrace (data e) = Some fs \<longrightarrow> length fs \<le> 3)
   \<and> (\<forall>e \<in> set (pushed r (on_cdp_event clk (ConsoleAPICalled ctype args frames) r)).
         stackTrace (data e) = map_option forwarded_frames frames)
   \<and> forwarded_frames frs =
        map (\<lambda>f. \<lparr>functionName = functionName f, frame_url = frame_url f,
                  frame_lineNumber = frame_lineNumber f, frame_columnNumber = None\<rparr>) (take 3 frs)
   \<and> (\<exists>e. pushed r (on_cdp_event clk (ExceptionThrown exc) r) = [e]
          \<and> stackTrace (data e) = None
          \<and> stack (data e) =
               map_option (\<lambda>fs. join_str [CHR 0x0A] (map stack_line fs)) (exception_callFrames exc))"
proof -
  have a: "\<forall>e \<in> set (pushed r (on_cdp_event clk ev r)).
         \<forall>fs. stackTrace (data e) = Some fs \<longrightarrow> length fs \<le> 3"
    using pushed_stackTrace_capped by blast
  have b: "\<forall>e \<in> set (pushed r (on_cdp_event clk (ConsoleAPICalled ctype args frames) r)).
         stackTrace (data e) = map_option forwarded_frames frames"
    by (auto simp: pushed_push_event pushed_same Let_def split: if_splits)
  have c: "\<exists>e. pushed r (on_cdp_event clk (ExceptionThrown exc) r) = [e]
          \<and> stackTrace (data e) = None
          \<and> stack (data e) =
               map_option (\<lambda>fs. join_str [CHR 0x0A] (map stack_line fs)) (exception_callFrames exc)"
    by (cases "exception_callFrames exc")
       (simp_all add: pushed_push_event no_data_def exception_stack_def)
  show ?thesis using on_cdp_event_appends [of clk ev r] a b c
    by (simp add: forwarded_frames_def)
qed

theorem forwarded_stackTrace_capped_console:
  "map (\<lambda>e. (type e, message (data e), stackTrace (data e)))
       (pushed fresh_recording (on_cdp_event (clock_at 1200) console_four fresh_recording))
     = [(''console-error'', Some ''boom'',
         Some [(frame_at ''a'' 1)\<lparr>frame_columnNumber := None\<rparr>,
               (frame_at ''b'' 2)\<lparr>frame_columnNumber := None\<rparr>,
               (frame_at ''c'' 3)\<lparr>frame_columnNumber := None\<rparr>])]
   \<and> list_all (\<lambda>e. case stackTrace (data e) of None \<Rightarrow> True | Some fs \<Rightarrow> length fs \<le> 3)
        (pushed fresh_recording (on_cdp_event (clock_at 1200) console_four fresh_recording))"
proof -
  have ev: "map (\<lambda>e. (type e, message (data e), stackTrace (data e)))
       (pushed fresh_recording (on_cdp_event (clock_at 1200) console_four fresh_recording))
     = [(''console-error'', Some ''boom'',
         Some [(frame_at ''a'' 1)\<lparr>frame_columnNumber := None\<rparr>,
               (frame_at ''b'' 2)\<lparr>frame_columnNumber := None\<rparr>,
               (frame_at ''c'' 3)\<lparr>frame_columnNumber := None\<rparr>])]"
    by (simp add: console_four_def four_frames_def frame_at_def isPointaUrl_def startsWith_def
        pushed_push_event level_type_def args_message_def arg_message_def no_data_def
        forwarded_frames_def)
  have cap: "\<forall>e \<in> set (pushed fresh_recording (on_cdp_event (clock_at 1200) console_four fresh_recording)).
         \<forall>fs. stackTrace (data e) = Some fs \<longrightarrow> length fs \<le> 3"
    using forwarded_stackTrace_capped [of "clock_at 1200" console_four fresh_recording] by blast
  have "list_all (\<lambda>e. case stackTrace (data e) of None \<Rightarrow> True | Some fs \<Rightarrow> length fs \<le> 3)
        (pushed fresh_recording (on_cdp_event (clock_at 1200) console_four fresh_recording))"
    unfolding list_all_iff using cap by (auto split: option.splits)
  then show ?thesis using ev by blast
qed

text \<open>
  Claim C8 as stated fails: the event for an uncaught exception with four call frames
  carries a stack of four lines.
\<close>

theorem exception_stack_uncapped:
  "map (\<lambda>e. (type e, stackTrace (data e), stack (data e)))
       (pushed fresh_recording (on_cdp_event (clock_at 1200) exception_four fresh_recording))
     = [(''console-error'', None,
         Some (''    at a (app.js:1:1)'' @ [CHR 0x0A] @ ''    at b (app.js:2:1)'' @ [CHR 0x0A]
               @ ''    at c (app.js:3:1)'' @ [CHR 0x0A] @ ''    at d (app.js:4:1)''))]"
  by (simp add: exception_four_def four_frames_def frame_at_def pushed_push_event no_data_def
      exception_stack_def stack_line_def or_default_def template_str_def template_int_def
      string_of_int_def string_of_nat.simps digit_char_def)

section \<open>Properties of the debugger attachment\<close>

subsection \<open>A failed start\<close>

lemma start_failed_result:
  "fst (start_failed tabId err s) = Inl err"
  "cdpRecordings (snd (start_failed tabId err s)) = (cdpRecordings s)(tabId := None)"
  by (simp_all add: start_failed_def)

lemma cdpRecordings_debugger_attach:
  "cdpRecordings (debugger_attach tabId s) = cdpRecordings s"
  by (simp add: debugger_attach_def)

lemma viewportOverrides_debugger_attach:
  "viewportOverrides (debugger_attach tabId s) = viewportOverrides s"
  by (simp add: debugger_attach_def)

lemma startCDPRecording_error_restores:
  assumes "fst (startCDPRecording tabId clk attach_ok network_ok log_ok runtime_ok s) = Inl err"
  shows "cdpRecordings (snd (startCDPRecording tabId clk attach_ok network_ok log_ok runtime_ok s))
           = cdpRecordings s"
    and "cdpRecordings s tabId = None"
proof -
  have none: "cdpRecordings s tabId = None"
    using assms by (cases "cdpRecordings s tabId") (simp_all add: startCDPRecording_def)
  then have restore: "\<And>v. ((cdpRecordings s)(tabId \<mapsto> v))(tabId := None) = cdpRecordings s"
    by (auto simp: fun_eq_iff)
  show "cdpRecordings s tabId = None" by (rule none)
  show "cdpRecordings (snd (startCDPRecording tabId clk attach_ok network_ok log_ok runtime_ok s))
           = cdpRecordings s"
    using assms none
    by (auto simp: startCDPRecording_def Let_def start_failed_def debugger_attach_def restore
        split: if_splits)
qed

lemma startCDPRecording_fails:
  assumes "cdpRecordings s tabId = None"
    and "(viewportOverrides s tabId = None \<and> \<not> attach_ok)
         \<or> \<not> network_ok \<or> \<not> log_ok \<or> \<not> runtime_ok"
  shows "\<exists>err. fst (startCDPRecording tabId clk attach_ok network_ok log_ok runtime_ok s) = Inl err"
  using assms
  by (auto simp: startCDPRecording_def Let_def start_failed_def debugger_attach_def)

text \<open>
  Claim C9: when \<open>startCDPRecording\<close> is called for a tab that is not being recorded and
  the attach (if one is made) or one of the three enable commands fails, the call ends with
  the error and the map of recordings is the one before the call, with no entry for the tab.
\<close>

theorem startCDPRecording_failure_leaves_no_entry:
  assumes "cdpRecordings s tabId = None"
    and "(viewportOverrides s tabId = None \<and> \<not> attach_ok)
         \<or> \<not> network_ok \<or> \<not> log_ok \<or> \<not> runtime_ok"
  shows "(\<exists>err. fst (startCDPRecording tabId clk attach_ok network_ok log_ok runtime_ok s) = Inl err)
         \<and> cdpRecordings (snd (startCDPRecording tabId clk attach_ok network_ok log_ok runtime_ok s))
             = cdpRecordings s
         \<and> cdpRecordings (snd (startCDPRecording tabId clk attach_ok network_ok log_ok runtime_ok s))
             tabId = None"
proof -
  obtain err where e: "fst (startCDPRecording tabId clk attach_ok network_ok log_ok runtime_ok s)
      = Inl err"
    using startCDPRecording_fails [OF assms] by blast
  show ?thesis
    using e startCDPRecording_error_restores [OF e] by auto
qed

theorem startCDPRecording_failure_leaves_no_entry_tab1:
  "fst (startCDPRecording 1 (clock_at 1000) False True True True background_init) = Inl AttachFailed
   \<and> snd (startCDPRecording 1 (clock_at 1000) False True True True background_init) = background_init
   \<and> fst (startCDPRecording 1 (clock_at 1000) True True False True background_init)
       = Inl (CommandFailed ''Log.enable'')
   \<and> cdpRecordings (snd (startCDPRecording 1 (clock_at 1000) True True False True background_init))
       = Map.empty
   \<and> attached (snd (startCDPRecording 1 (clock_at 1000) True True False True background_init)) = {1}"
proof -
  have none: "cdpRecordings background_init 1 = None"
    by (simp add: background_init_def)
  have f1: "(viewportOverrides background_init 1 = None \<and> \<not> False)
         \<or> \<not> True \<or> \<not> True \<or> \<not> True"
    by (simp add: background_init_def)
  have f2: "(viewportOverrides background_init 1 = None \<and> \<not> True)
         \<or> \<not> True \<or> \<not> False \<or> \<not> True"
    by simp
  have r1: "cdpRecordings (snd (startCDPRecording 1 (clock_at 1000) False True True True background_init))
      = cdpRecordings background_init"
    using startCDPRecording_failure_leaves_no_entry [OF none f1] by blast
  have r2: "cdpRecordings (snd (startCDPRecording 1 (clock_at 1000) True True False True background_init))
      = cdpRecordings background_init"
    using startCDPRecording_failure_leaves_no_entry [OF none f2] by blast
  have e1: "fst (startCDPRecording 1 (clock_at 1000) False True True True background_init) = Inl AttachFailed"
    by (simp add: startCDPRecording_def background_init_def start_failed_def)
  have rest1: "attached (snd (startCDPRecording 1 (clock_at 1000) False True True True background_init)) = {}
     \<and> viewportOverrides (snd (startCDPRecording 1 (clock_at 1000) False True True True background_init)) = Map.empty"
    by (simp add: startCDPRecording_def background_init_def start_failed_def)
  have s1: "snd (startCDPRecording 1 (clock_at 1000) False True True True background_init) = background_init"
    using r1 rest1 by (simp add: background_init_def)
  have e2: "fst (startCDPRecording 1 (clock_at 1000) True True False True background_init)
       = Inl (CommandFailed ''Log.enable'')"
    by (simp add: startCDPRecording_def background_init_def start_failed_def debugger_attach_def)
  have a2: "attached (snd (startCDPRecording 1 (clock_at 1000) True True False True background_init)) = {1}"
    by (simp add: startCDPRecording_def background_init_def start_failed_def debugger_attach_def)
  show ?thesis using e1 s1 e2 r2 a2 by (simp add: background_init_def)
qed

subsection \<open>Release by one of two consumers\<close>

lemma both_active_reached:
  "snd (startCDPRecording 1 (clock_at 0) True True True True
          (snd (setViewport 1 375 667 True True background_init))) = both_active"
  by (simp add: setViewport_def startCDPRecording_def background_init_def both_active_def
      debugger_attach_def clock_at_def)

text \<open>
  Claim C1 at a state with both consumers on tab 1, reached by \<open>setViewport\<close> followed by
  \<open>startCDPRecording\<close>: \<open>stopCDPRecording\<close> leaves the debugger attached, as the claim
  says, but \<open>resetViewport\<close> detaches it although the recording is still there.
\<close>

theorem resetViewport_detaches_under_recording:
  "snd (startCDPRecording 1 (clock_at 0) True True True True
          (snd (setViewport 1 375 667 True True background_init))) = both_active
   \<and> 1 \<in> attached both_active
   \<and> viewportOverrides both_active 1 \<noteq> None
   \<and> cdpRecordings both_active 1 \<noteq> None
   \<and> cdpRecordings (resetViewport 1 True True both_active) 1 \<noteq> None
   \<and> 1 \<notin> attached (resetViewport 1 True True both_active)
   \<and> viewportOverrides (snd (stopCDPRecording 1 True both_active)) 1 \<noteq> None
   \<and> 1 \<in> attached (snd (stopCDPRecording 1 True both_active))"
  using both_active_reached
  by (simp add: resetViewport_def stopCDPRecording_def both_active_def debugger_detach_def)

lemma stopCDPRecording_keeps_attachment:
  assumes "viewportOverrides s tabId \<noteq> None"
  shows "attached (snd (stopCDPRecording tabId detach_ok s)) = attached s"
  using assms by (auto simp: stopCDPRecording_def Let_def split: option.splits)

lemma stopCDPRecording_last_detaches:
  assumes "viewportOverrides s tabId = None" and "cdpRecordings s tabId \<noteq> None"
  shows "attached (snd (stopCDPRecording tabId True s)) = attached s - {tabId}"
  using assms by (auto simp: stopCDPRecording_def Let_def debugger_detach_def split: option.splits)

lemma resetViewport_always_detaches:
  "attached (resetViewport tabId True True s) = attached s - {tabId}"
  by (simp add: resetViewport_def debugger_detach_def)

section \<open>Properties of the backend log clients\<close>

subsection \<open>Reconnecting\<close>

lemma preload_delay_doubles:
  "preload_delay (Suc n) = min (2 * preload_delay n) 30000" "preload_delay n \<le> 30000"
  by (simp_all add: preload_delay_def min_def)

lemma preload_close_schedules:
  assumes "p_ws s \<noteq> None"
  shows "p_timers (preload_step SocketClose s)
           = p_timers s @ [preload_delay (p_reconnectAttempts s + 1)]"
    and "p_reconnectAttempts (preload_step SocketClose s) = p_reconnectAttempts s + 1"
    and "p_ws (preload_step SocketClose s) = None"
  using assms by (simp_all add: preload_on_close_def)

lemma exhausted_step:
  assumes "MAX_RECONNECT_ATTEMPTS \<le> p_reconnectAttempts s" and "p_ws s = None"
  shows "p_ws (preload_step e s) = None"
    and "p_reconnectAttempts (preload_step e s) = p_reconnectAttempts s"
    and "suffix (p_timers (preload_step e s)) (p_timers s)"
proof -
  show "p_ws (preload_step e s) = None"
    using assms
    by (cases e) (auto simp: preload_connect_def sendLog_def send_or_queue_def split: list.splits)
  show "p_reconnectAttempts (preload_step e s) = p_reconnectAttempts s"
    using assms
    by (cases e) (auto simp: preload_connect_def sendLog_def send_or_queue_def split: list.splits)
  show "suffix (p_timers (preload_step e s)) (p_timers s)"
    using assms
    by (cases e)
       (auto simp: preload_connect_def sendLog_def send_or_queue_def suffix_Cons
          split: list.splits)
qed

lemma exhausted_run:
  assumes "MAX_RECONNECT_ATTEMPTS \<le> p_reconnectAttempts s" and "p_ws s = None"
  shows "p_ws (preload_run es s) = None
         \<and> p_reconnectAttempts (preload_run es s) = p_reconnectAttempts s
         \<and> suffix (p_timers (preload_run es s)) (p_timers s)"
  using assms
proof (induction es arbitrary: s)
  case Nil
  then show ?case by simp
next
  case (Cons e es)
  have a: "MAX_RECONNECT_ATTEMPTS \<le> p_reconnectAttempts (preload_step e s)"
    using exhausted_step(2) [OF Cons.prems, of e] Cons.prems(1) by simp
  have b: "p_ws (preload_step e s) = None"
    using exhausted_step(1) [OF Cons.prems] .
  from Cons.IH [OF a b] show ?case
    using exhausted_step(2,3) [OF Cons.prems, of e]
    by (auto intro: suffix_order.trans)
qed

lemma scheduleReconnect_next:
  assumes "l_reconnectAttempts s < maxReconnectAttempts"
  shows "reconnectTimer (scheduleReconnect s) = Some (reconnectDelay * (3 / 2) ^ l_reconnectAttempts s)"
    and "l_reconnectAttempts (scheduleReconnect s) = l_reconnectAttempts s + 1"
  using assms by (simp_all add: scheduleReconnect_def Let_def)

lemma scheduleReconnect_exhausted:
  assumes "maxReconnectAttempts \<le> l_reconnectAttempts s"
  shows "scheduleReconnect s = s\<lparr>reconnectTimer := None\<rparr>"
  using assms by (simp add: scheduleReconnect_def Let_def)

lemma flushBuffer_open:
  assumes "l_ws s = Some OPEN"
  shows "flushBuffer s = s\<lparr>l_sent := l_sent s @ buffer s, buffer := []\<rparr>"
  using assms
proof (induction "buffer s" arbitrary: s)
  case Nil
  then show ?case by (simp add: flushBuffer.simps [of s])
next
  case (Cons d ds)
  let ?s1 = "logger_send d (s\<lparr>buffer := ds\<rparr>)"
  have s1: "?s1 = s\<lparr>buffer := ds, l_sent := l_sent s @ [d]\<rparr>"
    using Cons.prems by (simp add: logger_send_def)
  have b1: "ds = buffer ?s1" and o1: "l_ws ?s1 = Some OPEN"
    using Cons.prems by (simp_all add: s1)
  have "flushBuffer s = flushBuffer ?s1"
    using Cons.hyps(2) [symmetric] Cons.prems by (simp add: flushBuffer.simps [of s])
  also have "\<dots> = ?s1\<lparr>l_sent := l_sent ?s1 @ buffer ?s1, buffer := []\<rparr>"
    by (rule Cons.hyps(1) [OF b1 o1])
  also have "\<dots> = s\<lparr>l_sent := l_sent s @ buffer s, buffer := []\<rparr>"
    using Cons.hyps(2) [symmetric] by (simp add: s1)
  finally show ?case .
qed

lemma preload_run_append:
  "preload_run (xs @ ys) s = preload_run ys (preload_run xs s)"
  by (induction xs arbitrary: s) simp_all

lemma failed_rounds_Suc:
  "failed_rounds (Suc k) = [SocketClose, TimerFires True True] @ failed_rounds k"
  by (simp add: failed_rounds_def)

lemma preload_open_resets:
  assumes "p_ws s = Some CONNECTING"
  shows "p_reconnectAttempts (preload_step (SocketOpen port) s) = 0"
    and "p_ws (preload_step (SocketOpen port) s) = Some OPEN"
  using assms by (simp_all add: preload_on_open_def)

lemma preload_counter_kept:
  "p_reconnectAttempts (preload_step (SocketMessage m) s) = p_reconnectAttempts s"
  "p_reconnectAttempts (preload_step (TimerFires a b) s) = p_reconnectAttempts s"
  "p_reconnectAttempts (preload_step (ConsoleCall msg) s) = p_reconnectAttempts s"
  by (auto simp: preload_on_message_def preload_connect_def sendLog_def send_or_queue_def
      Let_def split: server_message.splits list.splits)

text \<open>
  Between failures the client either has a socket and attempts left, or has used up its
  attempts and has no socket.
\<close>

lemma preload_round:
  assumes "(p_ws s \<noteq> None \<and> p_reconnectAttempts s < MAX_RECONNECT_ATTEMPTS)
           \<or> (p_ws s = None \<and> p_reconnectAttempts s = MAX_RECONNECT_ATTEMPTS)"
  shows "p_reconnectAttempts (preload_run [SocketClose, TimerFires True True] s)
           = min (p_reconnectAttempts s + 1) MAX_RECONNECT_ATTEMPTS"
    and "(p_ws (preload_run [SocketClose, TimerFires True True] s) \<noteq> None
            \<and> p_reconnectAttempts (preload_run [SocketClose, TimerFires True True] s)
                < MAX_RECONNECT_ATTEMPTS)
         \<or> (p_ws (preload_run [SocketClose, TimerFires True True] s) = None
            \<and> p_reconnectAttempts (preload_run [SocketClose, TimerFires True True] s)
                = MAX_RECONNECT_ATTEMPTS)"
proof -
  have both: "p_reconnectAttempts (preload_run [SocketClose, TimerFires True True] s)
           = min (p_reconnectAttempts s + 1) MAX_RECONNECT_ATTEMPTS
      \<and> ((p_ws (preload_run [SocketClose, TimerFires True True] s) \<noteq> None
            \<and> p_reconnectAttempts (preload_run [SocketClose, TimerFires True True] s)
                < MAX_RECONNECT_ATTEMPTS)
         \<or> (p_ws (preload_run [SocketClose, TimerFires True True] s) = None
            \<and> p_reconnectAttempts (preload_run [SocketClose, TimerFires True True] s)
                = MAX_RECONNECT_ATTEMPTS))"
  proof (cases "p_ws s = None")
    case True
    then show ?thesis using assms
      by (cases "p_timers s") (simp_all add: preload_connect_def)
  next
    case False
    then have less: "p_reconnectAttempts s < MAX_RECONNECT_ATTEMPTS" using assms by auto
    show ?thesis using False less
      by (cases "p_timers s")
         (auto simp: preload_on_close_def preload_connect_def)
  qed
  then show "p_reconnectAttempts (preload_run [SocketClose, TimerFires True True] s)
           = min (p_reconnectAttempts s + 1) MAX_RECONNECT_ATTEMPTS"
    and "(p_ws (preload_run [SocketClose, TimerFires True True] s) \<noteq> None
            \<and> p_reconnectAttempts (preload_run [SocketClose, TimerFires True True] s)
                < MAX_RECONNECT_ATTEMPTS)
         \<or> (p_ws (preload_run [SocketClose, TimerFires True True] s) = None
            \<and> p_reconnectAttempts (preload_run [SocketClose, TimerFires True True] s)
                = MAX_RECONNECT_ATTEMPTS)"
    by blast+
qed

lemma preload_rounds:
  assumes "(p_ws s \<noteq> None \<and> p_reconnectAttempts s < MAX_RECONNECT_ATTEMPTS)
           \<or> (p_ws s = None \<and> p_reconnectAttempts s = MAX_RECONNECT_ATTEMPTS)"
  shows "p_reconnectAttempts (preload_run (failed_rounds k) s)
           = min (p_reconnectAttempts s + k) MAX_RECONNECT_ATTEMPTS
         \<and> ((p_ws (preload_run (failed_rounds k) s) \<noteq> None
               \<and> p_reconnectAttempts (preload_run (failed_rounds k) s) < MAX_RECONNECT_ATTEMPTS)
            \<or> (p_ws (preload_run (failed_rounds k) s) = None
               \<and> p_reconnectAttempts (preload_run (failed_rounds k) s) = MAX_RECONNECT_ATTEMPTS))"
  using assms
proof (induction k arbitrary: s)
  case 0
  then show ?case by (auto simp: failed_rounds_def)
next
  case (Suc k)
  let ?s1 = "preload_run [SocketClose, TimerFires True True] s"
  have c1: "p_reconnectAttempts ?s1 = min (p_reconnectAttempts s + 1) MAX_RECONNECT_ATTEMPTS"
    by (rule preload_round(1) [OF Suc.prems])
  have i1: "(p_ws ?s1 \<noteq> None \<and> p_reconnectAttempts ?s1 < MAX_RECONNECT_ATTEMPTS)
           \<or> (p_ws ?s1 = None \<and> p_reconnectAttempts ?s1 = MAX_RECONNECT_ATTEMPTS)"
    by (rule preload_round(2) [OF Suc.prems])
  have run: "preload_run (failed_rounds (Suc k)) s = preload_run (failed_rounds k) ?s1"
    unfolding failed_rounds_Suc preload_run_append ..
  have cnt: "min (p_reconnectAttempts ?s1 + k) MAX_RECONNECT_ATTEMPTS
      = min (p_reconnectAttempts s + Suc k) MAX_RECONNECT_ATTEMPTS"
    unfolding c1 by simp
  from Suc.IH [OF i1] show ?case
    unfolding run cnt .
qed

lemma preload_failures_since_open:
  assumes "p_ws s = Some CONNECTING"
  shows "p_reconnectAttempts (preload_run (SocketOpen port # failed_rounds k) s)
           = min k MAX_RECONNECT_ATTEMPTS"
    and "k < MAX_RECONNECT_ATTEMPTS \<Longrightarrow>
           p_ws (preload_run (SocketOpen port # failed_rounds k) s) \<noteq> None"
    and "MAX_RECONNECT_ATTEMPTS \<le> k \<Longrightarrow>
           p_ws (preload_run (SocketOpen port # failed_rounds k) s) = None"
proof -
  let ?s0 = "preload_step (SocketOpen port) s"
  have inv: "(p_ws ?s0 \<noteq> None \<and> p_reconnectAttempts ?s0 < MAX_RECONNECT_ATTEMPTS)
           \<or> (p_ws ?s0 = None \<and> p_reconnectAttempts ?s0 = MAX_RECONNECT_ATTEMPTS)"
    using preload_open_resets [OF assms, of port] by (simp add: MAX_RECONNECT_ATTEMPTS_def)
  have zero: "p_reconnectAttempts ?s0 = 0"
    by (rule preload_open_resets(1) [OF assms])
  note r = preload_rounds [OF inv, of k]
  show "p_reconnectAttempts (preload_run (SocketOpen port # failed_rounds k) s)
           = min k MAX_RECONNECT_ATTEMPTS"
    using r zero by simp
  show "k < MAX_RECONNECT_ATTEMPTS \<Longrightarrow>
           p_ws (preload_run (SocketOpen port # failed_rounds k) s) \<noteq> None"
    using r zero by auto
  show "MAX_RECONNECT_ATTEMPTS \<le> k \<Longrightarrow>
           p_ws (preload_run (SocketOpen port # failed_rounds k) s) = None"
    using r zero by auto
qed

lemma logger_on_open_resets: "l_reconnectAttempts (logger_on_open t) = 0"
  by (simp add: logger_on_open_def flushBuffer_open)

lemma logger_counter_kept:
  "l_reconnectAttempts (logger_send d t) = l_reconnectAttempts t"
  "l_reconnectAttempts (logger_timer_fires True t) = l_reconnectAttempts t"
  "l_reconnectAttempts (logger_on_error False t) = l_reconnectAttempts t"
  by (simp_all add: logger_send_def logger_timer_fires_def logger_connect_def logger_on_error_def)

lemma scheduleReconnect_counts:
  assumes "l_reconnectAttempts s \<le> maxReconnectAttempts"
  shows "l_reconnectAttempts (scheduleReconnect s)
           = min (l_reconnectAttempts s + 1) maxReconnectAttempts"
  using assms by (simp add: scheduleReconnect_def Let_def)

lemma logger_failures_counts:
  assumes "l_reconnectAttempts s \<le> maxReconnectAttempts"
  shows "l_reconnectAttempts (logger_failures k s)
           = min (l_reconnectAttempts s + k) maxReconnectAttempts"
  using assms
proof (induction k arbitrary: s)
  case 0
  then show ?case by simp
next
  case (Suc k)
  let ?s1 = "logger_timer_fires True (logger_on_close s)"
  have c1: "l_reconnectAttempts ?s1 = min (l_reconnectAttempts s + 1) maxReconnectAttempts"
    using Suc.prems
    by (simp add: logger_counter_kept logger_on_close_def scheduleReconnect_counts)
  then have le: "l_reconnectAttempts ?s1 \<le> maxReconnectAttempts" by simp
  have "min (l_reconnectAttempts ?s1 + k) maxReconnectAttempts
      = min (l_reconnectAttempts s + Suc k) maxReconnectAttempts"
    unfolding c1 by simp
  then show ?case using Suc.IH [OF le] by simp
qed

lemma logger_failures_since_open:
  "l_reconnectAttempts (logger_failures k (logger_on_open t)) = min k maxReconnectAttempts"
  using logger_failures_counts [of "logger_on_open t" k]
  by (simp add: logger_on_open_resets)

text \<open>
  Claim C6, as the code has it. In the preloaded client every close of the socket schedules
  \<open>connect\<close> after \<open>min (1000 * 2 ^ n) 30000\<close> ms, where \<open>n\<close> is the counter
  \<open>reconnectAttempts\<close> after the close: the delay doubles per attempt and is capped at 30 s.
  Only a close raises the counter and only an open sets it back to 0, so after an open and
  \<open>k\<close> failed rounds it is \<open>k\<close> (at most 10): it counts the closes since the last open.
  Once ten closes have come without an open, \<open>connect\<close> returns at once: whatever happens
  afterwards, there is no socket and no new timer. In the logger class of the SDK,
  \<open>scheduleReconnect\<close> is called by the close handler, by the error handler of a refused
  connection and by \<open>connect\<close> when the socket cannot be created; while its counter is
  below five, a call raises the counter to \<open>n\<close> and
  schedules the next attempt after \<open>2000 * 1.5 ^ (n - 1)\<close> ms (factor 1.5, no cap), and
  from five on it schedules nothing. An open sets the counter back to 0; sending and the timer
  leave it alone.
\<close>

theorem reconnect_backoff:
  "(p_ws s \<noteq> None \<longrightarrow>
       p_timers (preload_step SocketClose s)
         = p_timers s @ [preload_delay (p_reconnectAttempts s + 1)]
       \<and> p_reconnectAttempts (preload_step SocketClose s) = p_reconnectAttempts s + 1)
   \<and> preload_delay (Suc n) = min (2 * preload_delay n) 30000
   \<and> preload_delay n \<le> 30000
   \<and> (MAX_RECONNECT_ATTEMPTS \<le> p_reconnectAttempts s \<and> p_ws s = None \<longrightarrow>
         p_ws (preload_run es s) = None
         \<and> p_reconnectAttempts (preload_run es s) = p_reconnectAttempts s
         \<and> suffix (p_timers (preload_run es s)) (p_timers s))
   \<and> (l_reconnectAttempts t < maxReconnectAttempts \<longrightarrow>
         reconnectTimer (logger_on_close t)
           = Some (reconnectDelay * (3 / 2) ^ l_reconnectAttempts t)
         \<and> l_reconnectAttempts (logger_on_close t) = l_reconnectAttempts t + 1)
   \<and> (maxReconnectAttempts \<le> l_reconnectAttempts t \<longrightarrow>
         reconnectTimer (logger_on_close t) = None
         \<and> l_reconnectAttempts (logger_on_close t) = l_reconnectAttempts t)
   \<and> (p_ws s = Some CONNECTING \<longrightarrow>
         p_reconnectAttempts (preload_step (SocketOpen port) s) = 0
         \<and> p_reconnectAttempts (preload_run (SocketOpen port # failed_rounds k) s)
             = min k MAX_RECONNECT_ATTEMPTS
         \<and> (k < MAX_RECONNECT_ATTEMPTS \<longrightarrow>
               p_timers (preload_step SocketClose
                           (preload_run (SocketOpen port # failed_rounds k) s))
                 = p_timers (preload_run (SocketOpen port # failed_rounds k) s)
                     @ [preload_delay (k + 1)])
         \<and> (MAX_RECONNECT_ATTEMPTS \<le> k \<longrightarrow>
               p_ws (preload_run (SocketOpen port # failed_rounds k) s) = None))
   \<and> p_reconnectAttempts (preload_step (SocketMessage m) s) = p_reconnectAttempts s
   \<and> p_reconnectAttempts (preload_step (TimerFires a b) s) = p_reconnectAttempts s
   \<and> p_reconnectAttempts (preload_step (ConsoleCall msg) s) = p_reconnectAttempts s
   \<and> l_reconnectAttempts (logger_on_open t) = 0
   \<and> l_reconnectAttempts (logger_failures k (logger_on_open t)) = min k maxReconnectAttempts
   \<and> (k < maxReconnectAttempts \<longrightarrow>
         reconnectTimer (logger_on_close (logger_failures k (logger_on_open t)))
           = Some (reconnectDelay * (3 / 2) ^ k))
   \<and> (maxReconnectAttempts \<le> k \<longrightarrow>
         reconnectTimer (logger_on_close (logger_failures k (logger_on_open t))) = None)
   \<and> (l_reconnectAttempts t < maxReconnectAttempts \<longrightarrow>
         reconnectTimer (logger_on_error True t)
           = Some (reconnectDelay * (3 / 2) ^ l_reconnectAttempts t)
         \<and> l_reconnectAttempts (logger_on_error True t) = l_reconnectAttempts t + 1)
   \<and> (maxReconnectAttempts \<le> l_reconnectAttempts t \<longrightarrow>
         reconnectTimer (logger_on_error True t) = None
         \<and> l_reconnectAttempts (logger_on_error True t) = l_reconnectAttempts t)
   \<and> logger_on_error False t = t
   \<and> l_reconnectAttempts (logger_send d t) = l_reconnectAttempts t
   \<and> l_reconnectAttempts (logger_timer_fires True t) = l_reconnectAttempts t
   \<and> (l_reconnectAttempts t < maxReconnectAttempts \<longrightarrow>
         reconnectTimer (scheduleReconnect t)
           = Some (reconnectDelay * (3 / 2) ^ l_reconnectAttempts t)
         \<and> l_reconnectAttempts (scheduleReconnect t) = l_reconnectAttempts t + 1)
   \<and> (maxReconnectAttempts \<le> l_reconnectAttempts t \<longrightarrow>
         scheduleReconnect t = t\<lparr>reconnectTimer := None\<rparr>)
   \<and> (l_ws t \<noteq> Some CONNECTING \<and> l_ws t \<noteq> Some OPEN \<longrightarrow>
         logger_connect False t = scheduleReconnect t)"
proof -
  let ?pk = "preload_run (SocketOpen port # failed_rounds k) s"
  let ?lk = "logger_failures k (logger_on_open t)"
  have l1: "l_reconnectAttempts t < maxReconnectAttempts \<longrightarrow>
         reconnectTimer (logger_on_close t)
           = Some (reconnectDelay * (3 / 2) ^ l_reconnectAttempts t)
         \<and> l_reconnectAttempts (logger_on_close t) = l_reconnectAttempts t + 1"
    by (simp add: logger_on_close_def scheduleReconnect_next)
  have l2: "maxReconnectAttempts \<le> l_reconnectAttempts t \<longrightarrow>
         reconnectTimer (logger_on_close t) = None
         \<and> l_reconnectAttempts (logger_on_close t) = l_reconnectAttempts t"
    by (simp add: logger_on_close_def scheduleReconnect_exhausted)
  have p_open: "p_ws s = Some CONNECTING \<longrightarrow>
         p_reconnectAttempts (preload_step (SocketOpen port) s) = 0
         \<and> p_reconnectAttempts ?pk = min k MAX_RECONNECT_ATTEMPTS
         \<and> (k < MAX_RECONNECT_ATTEMPTS \<longrightarrow>
               p_timers (preload_step SocketClose ?pk) = p_timers ?pk @ [preload_delay (k + 1)])
         \<and> (MAX_RECONNECT_ATTEMPTS \<le> k \<longrightarrow> p_ws ?pk = None)"
  proof
    assume c: "p_ws s = Some CONNECTING"
    have cnt: "p_reconnectAttempts ?pk = min k MAX_RECONNECT_ATTEMPTS"
      by (rule preload_failures_since_open(1) [OF c])
    have close: "p_timers (preload_step SocketClose ?pk) = p_timers ?pk @ [preload_delay (k + 1)]"
      if less: "k < MAX_RECONNECT_ATTEMPTS"
    proof -
      have "p_ws ?pk \<noteq> None" by (rule preload_failures_since_open(2) [OF c less])
      from preload_close_schedules(1) [OF this] show ?thesis
        using cnt less by simp
    qed
    show "p_reconnectAttempts (preload_step (SocketOpen port) s) = 0
         \<and> p_reconnectAttempts ?pk = min k MAX_RECONNECT_ATTEMPTS
         \<and> (k < MAX_RECONNECT_ATTEMPTS \<longrightarrow>
               p_timers (preload_step SocketClose ?pk) = p_timers ?pk @ [preload_delay (k + 1)])
         \<and> (MAX_RECONNECT_ATTEMPTS \<le> k \<longrightarrow> p_ws ?pk = None)"
      using preload_open_resets(1) [OF c, of port] cnt close
        preload_failures_since_open(3) [OF c, of k port]
      by blast
  qed
  have lk: "l_reconnectAttempts ?lk = min k maxReconnectAttempts"
    by (rule logger_failures_since_open)
  have lk1: "k < maxReconnectAttempts \<longrightarrow>
         reconnectTimer (logger_on_close ?lk) = Some (reconnectDelay * (3 / 2) ^ k)"
    using lk by (simp add: logger_on_close_def scheduleReconnect_next)
  have lk2: "maxReconnectAttempts \<le> k \<longrightarrow> reconnectTimer (logger_on_close ?lk) = None"
    using lk by (simp add: logger_on_close_def scheduleReconnect_exhausted)
  have e1: "l_reconnectAttempts t < maxReconnectAttempts \<longrightarrow>
         reconnectTimer (logger_on_error True t)
           = Some (reconnectDelay * (3 / 2) ^ l_reconnectAttempts t)
         \<and> l_reconnectAttempts (logger_on_error True t) = l_reconnectAttempts t + 1"
    by (simp add: logger_on_error_def scheduleReconnect_next)
  have e2: "maxReconnectAttempts \<le> l_reconnectAttempts t \<longrightarrow>
         reconnectTimer (logger_on_error True t) = None
         \<and> l_reconnectAttempts (logger_on_error True t) = l_reconnectAttempts t"
    by (simp add: logger_on_error_def scheduleReconnect_exhausted)
  have e3: "logger_on_error False t = t"
    by (simp add: logger_on_error_def)
  have c1: "l_ws t \<noteq> Some CONNECTING \<and> l_ws t \<noteq> Some OPEN \<longrightarrow>
         logger_connect False t = scheduleReconnect t"
    by (simp add: logger_connect_def)
  have first_half:
    "(p_ws s \<noteq> None \<longrightarrow>
       p_timers (preload_step SocketClose s)
         = p_timers s @ [preload_delay (p_reconnectAttempts s + 1)]
       \<and> p_reconnectAttempts (preload_step SocketClose s) = p_reconnectAttempts s + 1)
     \<and> preload_delay (Suc n) = min (2 * preload_delay n) 30000
     \<and> preload_delay n \<le> 30000
     \<and> (MAX_RECONNECT_ATTEMPTS \<le> p_reconnectAttempts s \<and> p_ws s = None \<longrightarrow>
         p_ws (preload_run es s) = None
         \<and> p_reconnectAttempts (preload_run es s) = p_reconnectAttempts s
         \<and> suffix (p_timers (preload_run es s)) (p_timers s))"
    using preload_close_schedules(1,2) [of s] preload_delay_doubles [of n]
      exhausted_run [of s es]
    by blast
  show ?thesis
    using first_half l1 l2 p_open lk lk1 lk2 e1 e2 e3
      preload_counter_kept(1) [of m s] preload_counter_kept(2) [of a b s]
      preload_counter_kept(3) [of msg s] logger_on_open_resets [of t]
      logger_counter_kept(1) [of d t] logger_counter_kept(2) [of t]
      scheduleReconnect_next [of t] scheduleReconnect_exhausted [of t] c1
    by blast
qed

lemma ten_failures_state:
  "p_reconnectAttempts (preload_run ten_failures preload_init) = 10"
  "p_ws (preload_run ten_failures preload_init) = None"
  "p_timers (preload_run ten_failures preload_init) = []"
  by (simp_all add: ten_failures_def preload_init_def preload_on_close_def preload_connect_def
      MAX_RECONNECT_ATTEMPTS_def eval_nat_numeral)

lemma three_failures_state:
  "p_reconnectAttempts (preload_run (failed_rounds 3) preload_init) = 3"
  "p_ws (preload_run (failed_rounds 3) preload_init) = Some CONNECTING"
  by (simp_all add: failed_rounds_def preload_init_def preload_on_close_def preload_connect_def
      MAX_RECONNECT_ATTEMPTS_def eval_nat_numeral)

lemma logger_close_delays:
  "map (\<lambda>k. reconnectTimer (logger_on_close (logger_failures k logger_connecting)))
       [0, 1, 2, 3, 4, 5]
     = [Some 2000, Some 3000, Some 4500, Some 6750, Some 10125, None]"
  by (simp add: logger_connecting_def logger_new_def logger_connect_def logger_on_close_def
      logger_timer_fires_def scheduleReconnect_def maxReconnectAttempts_def reconnectDelay_def
      Let_def eval_nat_numeral)

lemma logger_refused_state:
  "l_reconnectAttempts (logger_on_error True logger_connecting) = 1"
  by (simp add: logger_connecting_def logger_new_def logger_connect_def logger_on_error_def
      scheduleReconnect_def maxReconnectAttempts_def Let_def)

theorem reconnect_backoff_failures:
  "p_timers (preload_step SocketClose preload_init) = [2000]
   \<and> map preload_delay [1, 2, 3, 4, 5, 6] = [2000, 4000, 8000, 16000, 30000, 30000]
   \<and> p_reconnectAttempts (preload_run ten_failures preload_init) = 10
   \<and> p_ws (preload_run [TimerFires True True, ConsoleCall (log_line ''late''), TimerFires True True]
             (preload_run ten_failures preload_init)) = None
   \<and> p_timers (preload_run [TimerFires True True, ConsoleCall (log_line ''late''), TimerFires True True]
             (preload_run ten_failures preload_init)) = []
   \<and> reconnectTimer (logger_on_close logger_connecting) = Some 2000
   \<and> reconnectTimer (logger_on_close (logger_failures 5 logger_connecting)) = None
   \<and> p_reconnectAttempts (preload_run (failed_rounds 3) preload_init) = 3
   \<and> p_reconnectAttempts
        (preload_step (SocketOpen ''3000'') (preload_run (failed_rounds 3) preload_init)) = 0
   \<and> p_reconnectAttempts
        (preload_run (SocketOpen ''3000'' # failed_rounds 2)
           (preload_run (failed_rounds 3) preload_init)) = 2
   \<and> p_timers (preload_step SocketClose
                 (preload_run (SocketOpen ''3000'' # failed_rounds 2)
                    (preload_run (failed_rounds 3) preload_init)))
       = p_timers (preload_run (SocketOpen ''3000'' # failed_rounds 2)
                     (preload_run (failed_rounds 3) preload_init)) @ [8000]
   \<and> l_reconnectAttempts (logger_on_open (logger_failures 5 logger_connecting)) = 0
   \<and> l_reconnectAttempts (logger_failures 2 (logger_on_open (logger_failures 5 logger_connecting)))
       = 2
   \<and> reconnectTimer (logger_on_close
        (logger_failures 2 (logger_on_open (logger_failures 5 logger_connecting)))) = Some 4500
   \<and> reconnectTimer (logger_on_close (logger_on_error True logger_connecting)) = Some 3000"
proof -
  let ?after = "preload_run ten_failures preload_init"
  let ?es = "[TimerFires True True, ConsoleCall (log_line ''late''), TimerFires True True]"
  let ?five = "logger_failures 5 logger_connecting"
  let ?three = "preload_run (failed_rounds 3) preload_init"
  let ?refused = "logger_on_error True logger_connecting"
  note inst = reconnect_backoff [where s = preload_init and n = 1 and es = "[]"
      and t = logger_connecting and k = 0]
  note inst_after = reconnect_backoff [where s = ?after and n = 1 and es = ?es and t = ?five
      and k = 2]
  note inst_three = reconnect_backoff [where s = ?three and port = "''3000''" and k = 2
      and t = ?refused]
  have open_socket: "p_ws preload_init \<noteq> None" by (simp add: preload_init_def)
  have first: "p_timers (preload_step SocketClose preload_init) = [2000]"
    using inst open_socket by (simp add: preload_init_def preload_delay_def)
  have delays: "map preload_delay [1, 2, 3, 4, 5, 6] = [2000, 4000, 8000, 16000, 30000, 30000]"
    by (simp add: preload_delay_def)
  have spent: "MAX_RECONNECT_ATTEMPTS \<le> p_reconnectAttempts ?after \<and> p_ws ?after = None"
    by (simp add: ten_failures_state MAX_RECONNECT_ATTEMPTS_def)
  have stays: "p_ws (preload_run ?es ?after) = None
      \<and> suffix (p_timers (preload_run ?es ?after)) (p_timers ?after)"
    using inst_after spent by blast
  then have no_timer: "p_timers (preload_run ?es ?after) = []"
    by (simp add: ten_failures_state)
  have zero: "l_reconnectAttempts logger_connecting < maxReconnectAttempts"
    by (simp add: logger_connecting_def logger_connect_def logger_new_def maxReconnectAttempts_def)
  have l_first: "reconnectTimer (logger_on_close logger_connecting) = Some 2000"
    using inst zero
    by (simp add: reconnectDelay_def logger_connecting_def logger_connect_def logger_new_def)
  have five: "maxReconnectAttempts \<le> l_reconnectAttempts ?five"
    by (simp add: logger_connecting_def logger_new_def logger_connect_def logger_on_close_def
      logger_timer_fires_def scheduleReconnect_def maxReconnectAttempts_def
      Let_def eval_nat_numeral)
  have l_last: "reconnectTimer (logger_on_close ?five) = None"
    using inst_after five by blast
  have connecting: "p_ws ?three = Some CONNECTING"
    by (rule three_failures_state(2))
  have two_less: "(2::nat) < MAX_RECONNECT_ATTEMPTS" "(2::nat) < maxReconnectAttempts"
    by (simp_all add: MAX_RECONNECT_ATTEMPTS_def maxReconnectAttempts_def)
  have reset: "p_reconnectAttempts (preload_step (SocketOpen ''3000'') ?three) = 0"
    using inst_three connecting by blast
  have again: "p_reconnectAttempts (preload_run (SocketOpen ''3000'' # failed_rounds 2) ?three) = 2"
    using inst_three connecting by (simp add: MAX_RECONNECT_ATTEMPTS_def)
  have third: "p_timers (preload_step SocketClose
                 (preload_run (SocketOpen ''3000'' # failed_rounds 2) ?three))
       = p_timers (preload_run (SocketOpen ''3000'' # failed_rounds 2) ?three)
           @ [preload_delay (2 + 1)]"
    using inst_three connecting two_less(1) by blast
  have d3: "preload_delay (2 + 1) = 8000" by (simp add: preload_delay_def)
  have l_reset: "l_reconnectAttempts (logger_on_open ?five) = 0"
    using inst_after by blast
  have l_again: "l_reconnectAttempts (logger_failures 2 (logger_on_open ?five)) = 2"
    using inst_after by (simp add: maxReconnectAttempts_def)
  have l_third: "reconnectTimer (logger_on_close (logger_failures 2 (logger_on_open ?five)))
      = Some (reconnectDelay * (3 / 2) ^ 2)"
    using inst_after two_less(2) by blast
  have d4: "reconnectDelay * (3 / 2) ^ 2 = 4500"
    by (simp add: reconnectDelay_def power2_eq_square)
  have one: "l_reconnectAttempts ?refused < maxReconnectAttempts"
    by (simp add: logger_refused_state maxReconnectAttempts_def)
  have refused: "reconnectTimer (logger_on_close ?refused) = Some 3000"
    using inst_three one by (simp add: logger_refused_state reconnectDelay_def)
  show ?thesis
    using first delays ten_failures_state(1) stays no_timer l_first l_last
      three_failures_state(1) reset again third l_reset l_again l_third refused
    unfolding d3 d4 by blast
qed

text \<open>
  Claim C6 as stated fails for the logger class: its second delay is 3000 ms, one and a half
  times the first, and its delays never reach a cap of 30 s.
\<close>

theorem logger_delay_not_doubled:
  "reconnectTimer (logger_on_close logger_connecting) = Some 2000
   \<and> reconnectTimer (logger_on_close (logger_timer_fires True (logger_on_close logger_connecting)))
       = Some 3000
   \<and> map (\<lambda>k. reconnectTimer (logger_on_close (logger_failures k logger_connecting)))
         [0, 1, 2, 3, 4, 5]
       = [Some 2000, Some 3000, Some 4500, Some 6750, Some 10125, None]"
  using logger_close_delays
  by (simp add: logger_connecting_def logger_new_def logger_connect_def logger_on_close_def
      logger_timer_fires_def scheduleReconnect_def maxReconnectAttempts_def reconnectDelay_def
      Let_def)

subsection \<open>Buffering without a socket\<close>

lemma logger_send_cap:
  assumes "length (buffer s) \<le> maxBufferSize"
  shows "length (buffer (logger_send d s)) \<le> maxBufferSize"
  using assms by (simp add: logger_send_def)

lemma logger_send_offline:
  assumes "l_ws s \<noteq> Some OPEN"
  shows "length (buffer s) < maxBufferSize \<Longrightarrow> logger_send d s = s\<lparr>buffer := buffer s @ [d]\<rparr>"
    and "maxBufferSize \<le> length (buffer s) \<Longrightarrow> logger_send d s = s"
  using assms by (simp_all add: logger_send_def)

lemma logger_on_open_flushes:
  "l_sent (logger_on_open s) = l_sent s @ buffer s" "buffer (logger_on_open s) = []"
  by (simp_all add: logger_on_open_def flushBuffer_open)

lemma sendLog_offline:
  assumes "p_isRecording s" and "p_ws s \<noteq> Some OPEN"
  shows "sendLog msg s = s\<lparr>messageQueue := messageQueue s @ [msg]\<rparr>"
  using assms by (simp add: sendLog_def send_or_queue_def)

lemma preload_on_open_flushes:
  "p_sent (preload_on_open port s) = p_sent s @ [Register port] @ map Log (messageQueue s)"
  "messageQueue (preload_on_open port s) = []"
  by (simp_all add: preload_on_open_def)

lemma preload_queue_grows:
  assumes "p_isRecording s" and "p_ws s \<noteq> Some OPEN"
  shows "messageQueue (preload_run (replicate n (ConsoleCall msg)) s)
           = messageQueue s @ replicate n msg"
  using assms
proof (induction n arbitrary: s)
  case 0
  then show ?case by simp
next
  case (Suc n)
  let ?s1 = "sendLog msg s"
  have s1: "?s1 = s\<lparr>messageQueue := messageQueue s @ [msg]\<rparr>"
    using sendLog_offline [OF Suc.prems] .
  have "p_isRecording ?s1" "p_ws ?s1 \<noteq> Some OPEN"
    using Suc.prems by (simp_all add: s1)
  from Suc.IH [OF this] show ?case
    by (simp add: s1 replicate_app_Cons_same)
qed

text \<open>
  Claim C7, as the code has it. The logger class keeps its buffer within the cap of 100: a
  frame sent while the socket is not open is appended while the buffer holds fewer than 100
  frames and is dropped otherwise, so the oldest frames are the ones kept; at the next open
  the buffered frames are sent in order and the buffer is empty. The preloaded client has no
  cap: every message logged while it records without an open socket is appended to the queue,
  and the queue is sent in order, after the registration, at the next open.
\<close>

theorem offline_buffering:
  "(length (buffer s) \<le> maxBufferSize \<longrightarrow> length (buffer (logger_send d s)) \<le> maxBufferSize)
   \<and> (l_ws s \<noteq> Some OPEN \<and> length (buffer s) < maxBufferSize \<longrightarrow>
         logger_send d s = s\<lparr>buffer := buffer s @ [d]\<rparr>)
   \<and> (l_ws s \<noteq> Some OPEN \<and> maxBufferSize \<le> length (buffer s) \<longrightarrow> logger_send d s = s)
   \<and> l_sent (logger_on_open s) = l_sent s @ buffer s
   \<and> buffer (logger_on_open s) = []
   \<and> (p_isRecording q \<and> p_ws q \<noteq> Some OPEN \<longrightarrow>
         messageQueue (preload_run (replicate n (ConsoleCall msg)) q)
           = messageQueue q @ replicate n msg)
   \<and> p_sent (preload_on_open port q) = p_sent q @ [Register port] @ map Log (messageQueue q)
   \<and> messageQueue (preload_on_open port q) = []"
  using logger_send_cap [of s d] logger_send_offline [of s d] logger_on_open_flushes [of s]
    preload_queue_grows [of q n msg] preload_on_open_flushes [of port q]
  by blast

lemma preload_recording_offline_state:
  "p_isRecording preload_recording_offline" "p_ws preload_recording_offline = None"
  "messageQueue preload_recording_offline = []"
  by (simp_all add: preload_recording_offline_def preload_init_def preload_on_open_def
      preload_on_message_def preload_on_close_def)

theorem offline_buffering_samples:
  "logger_send (Log (log_line ''new'')) (full_logger\<lparr>buffer := [Log (log_line ''old'')]\<rparr>)
      = full_logger\<lparr>buffer := [Log (log_line ''old''), Log (log_line ''new'')]\<rparr>
   \<and> length (buffer (logger_send (Log (log_line ''new'')) full_logger)) \<le> maxBufferSize
   \<and> l_sent (logger_on_open full_logger) = replicate 100 (Log (log_line ''old''))
   \<and> messageQueue (preload_run (replicate 3 (ConsoleCall (log_line ''x''))) preload_recording_offline)
       = [log_line ''x'', log_line ''x'', log_line ''x'']"
proof -
  let ?one = "full_logger\<lparr>buffer := [Log (log_line ''old'')]\<rparr>"
  note inst_one = offline_buffering [where s = ?one and d = "Log (log_line ''new'')"
      and q = preload_recording_offline and n = 3 and msg = "log_line ''x''" and port = "''3000''"]
  note inst_full = offline_buffering [where s = full_logger and d = "Log (log_line ''new'')"
      and q = preload_recording_offline and n = 3 and msg = "log_line ''x''" and port = "''3000''"]
  have off: "l_ws ?one \<noteq> Some OPEN \<and> length (buffer ?one) < maxBufferSize"
    by (simp add: full_logger_def logger_new_def maxBufferSize_def)
  have a: "logger_send (Log (log_line ''new'')) ?one
      = full_logger\<lparr>buffer := [Log (log_line ''old''), Log (log_line ''new'')]\<rparr>"
    using inst_one off by simp
  have cap: "length (buffer full_logger) \<le> maxBufferSize"
    by (simp add: full_logger_def maxBufferSize_def)
  have b: "length (buffer (logger_send (Log (log_line ''new'')) full_logger)) \<le> maxBufferSize"
    using inst_full cap by blast
  have c: "l_sent (logger_on_open full_logger) = replicate 100 (Log (log_line ''old''))"
    using inst_full by (simp add: full_logger_def logger_new_def)
  have rec: "p_isRecording preload_recording_offline
      \<and> p_ws preload_recording_offline \<noteq> Some OPEN"
    by (simp add: preload_recording_offline_state)
  have d: "messageQueue (preload_run (replicate 3 (ConsoleCall (log_line ''x''))) preload_recording_offline)
       = [log_line ''x'', log_line ''x'', log_line ''x'']"
    using inst_full rec by (simp add: preload_recording_offline_state eval_nat_numeral)
  show ?thesis using a b c d by blast
qed

text \<open>
  Claim C7 as stated fails: the logger class with a full buffer drops the newest message
  (it is not a ring buffer), and the queue of the preloaded client grows past 100 entries.
\<close>

theorem newest_message_dropped:
  "length (buffer full_logger) = 100
   \<and> logger_send (Log (log_line ''new'')) full_logger = full_logger
   \<and> Log (log_line ''new'') \<notin> set (buffer (logger_send (Log (log_line ''new'')) full_logger))
   \<and> length (messageQueue
        (preload_run (replicate 101 (ConsoleCall (log_line ''x''))) preload_recording_offline))
       = 101"
proof -
  have a: "length (buffer full_logger) = 100"
    by (simp add: full_logger_def)
  have b: "logger_send (Log (log_line ''new'')) full_logger = full_logger"
    by (simp add: logger_send_def full_logger_def logger_new_def maxBufferSize_def)
  have c: "Log (log_line ''new'') \<notin> set (buffer full_logger)"
    by (simp add: full_logger_def log_line_def)
  have d: "length (messageQueue
        (preload_run (replicate 101 (ConsoleCall (log_line ''x''))) preload_recording_offline))
       = 101"
    using preload_queue_grows [of preload_recording_offline 101 "log_line ''x''"]
    by (simp add: preload_recording_offline_state)
  show ?thesis using a b c d by simp
qed

end
